theory Spec2Isabelle
  imports Complex_Main
begin

section \<open>Numbers, arrays and exceptions of the source language\<close>

text \<open>
  The source is TypeScript. Its \<open>number\<close> is modelled by the rationals: every number the
  reducer handles is an integer or an integer divided by the block size 20, of small
  magnitude, and on those the comparisons, sums and integrality tests of the code agree
  with exact arithmetic.
\<close>

type_synonym number = rat

text \<open>
  The ids of the pieces and the values of the generator's congruential step are natural
  numbers that leave the range where doubles are exact. Beyond \<open>2 ^ 53\<close> a double keeps 53
  significant bits: \<open>excess\<close> is the number of low bits that do not fit, and
  \<open>round_double\<close> is the double nearest to a natural number, ties going to the even
  mantissa. Values stay far below \<open>2 ^ 1024\<close>, where doubles overflow: the ids of the
  reducer never exceed \<open>2 ^ 53\<close> (lemma \<open>reachable_ids\<close> below).
\<close>

fun excess :: "nat \<Rightarrow> nat" where
  "excess n = (if n < 2 ^ 53 then 0 else Suc (excess (n div 2)))"

declare excess.simps [simp del]

definition round_double :: "nat \<Rightarrow> nat" where
  "round_double n =
     (let e = excess n; q = n div 2 ^ e; r = n mod 2 ^ e
      in if 2 * r < 2 ^ e then q * 2 ^ e
         else if 2 * r > 2 ^ e then (q + 1) * 2 ^ e
         else if even q then q * 2 ^ e
         else (q + 1) * 2 ^ e)"

text \<open>The two exceptions the modelled functions can throw.\<close>

datatype error = TypeError | RangeError

definition isInteger :: "number \<Rightarrow> bool" where
  "isInteger k = (of_int \<lfloor>k\<rfloor> = k)"

text \<open>
  \<open>xs[k]\<close>: the element when \<open>k\<close> is an integer index inside the array, \<open>undefined\<close>
  (here \<open>None\<close>) for a fractional, negative or too large \<open>k\<close>.
\<close>

definition js_nth :: "'a list \<Rightarrow> number \<Rightarrow> 'a option" where
  "js_nth xs k =
     (if isInteger k \<and> 0 \<le> k \<and> k < of_nat (length xs) then Some (xs ! nat \<lfloor>k\<rfloor>) else None)"

text \<open>
  Reading a cell of an array whose elements may themselves be \<open>undefined\<close>:
  out of range and a stored \<open>undefined\<close> read the same.
\<close>

definition cell_at :: "'a option list \<Rightarrow> number \<Rightarrow> 'a option" where
  "cell_at row k = (case js_nth row k of None \<Rightarrow> None | Some c \<Rightarrow> c)"

text \<open>
  \<open>Array.prototype.map\<close> with the index, \<open>some\<close> and \<open>reduce\<close> with callbacks that may
  throw: the first exception ends the traversal.
\<close>

fun map_from :: "nat \<Rightarrow> ('a \<Rightarrow> nat \<Rightarrow> 'b) \<Rightarrow> 'a list \<Rightarrow> 'b list" where
  "map_from i f [] = []"
| "map_from i f (v # vs) = f v i # map_from (i + 1) f vs"

fun collect :: "(error + 'a) list \<Rightarrow> error + 'a list" where
  "collect [] = Inr []"
| "collect (r # rs) =
     (case r of Inl e \<Rightarrow> Inl e
      | Inr v \<Rightarrow> (case collect rs of Inl e \<Rightarrow> Inl e | Inr vs \<Rightarrow> Inr (v # vs)))"

fun some_from :: "nat \<Rightarrow> ('a \<Rightarrow> nat \<Rightarrow> error + bool) \<Rightarrow> 'a list \<Rightarrow> error + bool" where
  "some_from i f [] = Inr False"
| "some_from i f (v # vs) =
     (case f v i of Inl e \<Rightarrow> Inl e
      | Inr b \<Rightarrow> if b then Inr True else some_from (i + 1) f vs)"

fun reduce_from :: "nat \<Rightarrow> ('b \<Rightarrow> 'a \<Rightarrow> nat \<Rightarrow> error + 'b) \<Rightarrow> 'b \<Rightarrow> 'a list \<Rightarrow> error + 'b" where
  "reduce_from i f acc [] = Inr acc"
| "reduce_from i f acc (v # vs) =
     (case f acc v i of Inl e \<Rightarrow> Inl e | Inr acc' \<Rightarrow> reduce_from (i + 1) f acc' vs)"

section \<open>types.ts: constants, pieces, state\<close>

datatype Color = blue | cyan | purple | orange | red | yellow | green | black

text \<open>
  \<open>GridObject\<close>: the cells of the initial grid are \<open>{ value: 0 }\<close>, with no colour, and
  \<open>value\<close> is optional in the type.
\<close>

record GridObject =
  g_color :: "Color option"
  g_value :: "number option"

type_synonym Grid = "GridObject list list"

text \<open>
  \<open>Tetromino\<close> is a union of string literals, the same strings that index
  \<open>tetrominoShapes\<close>. A shape is a matrix of numbers; an entry is \<open>None\<close> where the source
  holds \<open>undefined\<close>, which \<open>rotateShapeClockwise\<close> stores when a row is shorter than the
  first one.
\<close>

type_synonym Tetromino = string

type_synonym TetrominoShape = "number option list list"

text \<open>
  The source never builds a piece whose id is \<open>null\<close>, negative or fractional: the table
  has 0, the generator is called at 1, at 2 and at successors. Ids are natural numbers.
\<close>

record TetrominoObject =
  t_id :: nat
  t_shape :: TetrominoShape
  t_color :: Color
  t_x :: number
  t_y :: number
  t_type :: Tetromino

record State =
  gameEnd :: bool
  currentTetromino :: TetrominoObject
  nextTetromino :: TetrominoObject
  grid :: Grid
  score :: number
  level :: number
  highScore :: number
  tickRate :: number

datatype StateChange = Space | Rotate | Drop | Move number number | Tick

definition RNG_m :: nat where "RNG_m = 2147483648"
definition RNG_a :: nat where "RNG_a = 1103515245"
definition RNG_c :: nat where "RNG_c = 12345"

text \<open>
  \<open>(RNG.a * seed + RNG.c) % RNG.m\<close> in double precision: the product is rounded, then the
  sum; \<open>%\<close> is exact, and on natural numbers it is \<open>mod\<close>. Up to the seed 8162278 nothing
  is rounded.
\<close>

definition hash :: "nat \<Rightarrow> nat" where
  "hash seed = round_double (round_double (RNG_a * seed) + RNG_c) mod RNG_m"

definition modulus :: "nat \<Rightarrow> nat" where
  "modulus h = h mod 8"

definition Bomb :: Tetromino where "Bomb = ''Bomb''"

definition CANVAS_WIDTH :: number where "CANVAS_WIDTH = 200"
definition CANVAS_HEIGHT :: number where "CANVAS_HEIGHT = 400"
definition TICK_RATE_MS :: number where "TICK_RATE_MS = 500"
definition GRID_WIDTH :: number where "GRID_WIDTH = 10"
definition GRID_HEIGHT :: number where "GRID_HEIGHT = 20"
definition WIDTH :: number where "WIDTH = CANVAS_WIDTH / GRID_WIDTH"
definition HEIGHT :: number where "HEIGHT = CANVAS_HEIGHT / GRID_HEIGHT"

definition piece :: "Tetromino \<Rightarrow> TetrominoShape \<Rightarrow> Color \<Rightarrow> number \<Rightarrow> TetrominoObject" where
  \<comment> \<open>\<open>{ ...baseTetromino, type, shape, color, x }\<close> with \<open>baseTetromino = { id: 0, y: 0 }\<close>\<close>
  "piece ty sh col px =
     \<lparr>t_id = 0, t_shape = sh, t_color = col, t_x = px, t_y = 0, t_type = ty\<rparr>"

definition tetrominoShapes :: "string \<rightharpoonup> TetrominoObject" where
  "tetrominoShapes = map_of
     [(''cube'', piece ''cube'' [[Some 1, Some 1], [Some 1, Some 1]] blue (WIDTH * 4)),
      (''line'', piece ''line'' [[Some 1, Some 1, Some 1, Some 1]] cyan (WIDTH * 3)),
      (''tee'', piece ''tee'' [[Some 0, Some 1, Some 0], [Some 1, Some 1, Some 1]] purple (WIDTH * 4)),
      (''lShape'', piece ''lShape'' [[Some 1, Some 0], [Some 1, Some 0], [Some 1, Some 1]] orange (WIDTH * 4)),
      (''reverseLShape'',
         piece ''reverseLShape'' [[Some 0, Some 1], [Some 0, Some 1], [Some 1, Some 1]] red (WIDTH * 4)),
      (''zShape'', piece ''zShape'' [[Some 1, Some 1, Some 0], [Some 0, Some 1, Some 1]] yellow (WIDTH * 4)),
      (''reverseZShape'',
         piece ''reverseZShape'' [[Some 0, Some 1, Some 1], [Some 1, Some 1, Some 0]] green (WIDTH * 4)),
      (''Bomb'', piece Bomb [[Some 1]] black (WIDTH * 5)),
      (''null'', piece ''cube'' [] black (WIDTH * 5))]"

definition tetrominoMapping :: "nat \<rightharpoonup> Tetromino" where
  "tetrominoMapping = map_of
     [(0, ''cube''), (1, ''line''), (2, ''tee''), (3, ''lShape''), (4, ''reverseLShape''),
      (5, ''zShape''), (6, ''reverseZShape''), (7, Bomb)]"

text \<open>
  Both lookups of \<open>getRandomTetrimono\<close> hit an entry for every id: the hash modulo 8 is
  one of the keys 0 to 7 of \<open>tetrominoMapping\<close>, and each of its eight values is a key of
  \<open>tetrominoShapes\<close> (lemmas \<open>mapping_entries\<close>, \<open>shape_entries\<close> and \<open>kind_cases\<close>
  below). \<open>null\<close> is a key of the table too, so \<open>the\<close> always meets a \<open>Some\<close>.
\<close>

definition getRandomTetrimono :: "nat \<Rightarrow> TetrominoObject" where
  "getRandomTetrimono i =
     (let seed = round_double (12345 + i);
          hashValue = hash seed;
          numberBetween0And7 = modulus hashValue;
          tetromino = the (tetrominoShapes (the (tetrominoMapping numberBetween0And7)))
      in tetromino\<lparr>t_id := i\<rparr>)"

definition emptyCell :: GridObject where
  "emptyCell = \<lparr>g_color = None, g_value = Some 0\<rparr>"

definition initialState :: State where
  "initialState =
     \<lparr>gameEnd = False,
      currentTetromino = getRandomTetrimono 1,
      nextTetromino = getRandomTetrimono 2,
      grid = replicate 20 (replicate 10 emptyCell),
      score = 0,
      level = 1,
      highScore = 0,
      tickRate = TICK_RATE_MS\<rparr>"

section \<open>utils.ts\<close>

definition rotateShapeClockwise :: "'a option list list \<Rightarrow> error + 'a option list list" where
  \<comment> \<open>\<open>shape[0].length\<close> throws on the empty shape\<close>
  "rotateShapeClockwise shape =
     (case shape of
        [] \<Rightarrow> Inl TypeError
      | r0 # _ \<Rightarrow>
          Inr (map (\<lambda>col. map (\<lambda>row. cell_at row (of_nat col)) (rev shape)) [0..<length r0]))"

definition isOffScreen :: "number \<Rightarrow> number \<Rightarrow> number \<Rightarrow> number \<Rightarrow> bool" where
  "isOffScreen px py width height =
     (px < 0 \<or> px + width > CANVAS_WIDTH \<or> py + height > CANVAS_HEIGHT)"

definition toGridCoordinates :: "number \<Rightarrow> number \<Rightarrow> number" where
  "toGridCoordinates coord blockSize = coord / blockSize"

definition shapeAndGridCoincide :: "TetrominoShape \<Rightarrow> Grid \<Rightarrow> number \<Rightarrow> number \<Rightarrow> error + bool" where
  \<comment> \<open>\<open>grid[y + rowIndex][x + cellIndex].value\<close> throws when either read is \<open>undefined\<close>;
      it is reached only for a shape cell equal to 1, in a row reached with \<open>acc\<close> false\<close>
  "shapeAndGridCoincide shape g gx gy =
     reduce_from 0
       (\<lambda>acc row rowIndex.
          if acc then Inr True
          else some_from 0
                 (\<lambda>cell cellIndex.
                    if cell = Some 1 then
                      (case js_nth g (gy + of_nat rowIndex) of
                         None \<Rightarrow> Inl TypeError
                       | Some grow \<Rightarrow>
                           (case js_nth grow (gx + of_nat cellIndex) of
                              None \<Rightarrow> Inl TypeError
                            | Some c \<Rightarrow> Inr (g_value c = Some 1)))
                    else Inr False)
                 row)
       False shape"

definition isValidPosition :: "number \<Rightarrow> number \<Rightarrow> TetrominoShape \<Rightarrow> Grid \<Rightarrow> error + bool" where
  \<comment> \<open>\<open>shape[0]\<close> is \<open>undefined\<close> exactly for the shape with no rows\<close>
  "isValidPosition px py shape g =
     (case shape of
        [] \<Rightarrow> Inr False
      | r0 # _ \<Rightarrow>
          if isOffScreen px py (of_nat (length r0) * WIDTH) (of_nat (length shape) * HEIGHT)
          then Inr False
          else (case shapeAndGridCoincide shape g
                       (toGridCoordinates px WIDTH) (toGridCoordinates py HEIGHT) of
                  Inl e \<Rightarrow> Inl e
                | Inr b \<Rightarrow> Inr (\<not> b)))"

definition isRowFilled :: "GridObject list \<Rightarrow> bool" where
  "isRowFilled row = list_all (\<lambda>cell. g_value cell \<noteq> Some 0) row"

definition addTetrominoToGrid ::
  "Grid \<Rightarrow> number \<Rightarrow> number \<Rightarrow> TetrominoShape \<Rightarrow> Color \<Rightarrow> error + Grid" where
  \<comment> \<open>\<open>shape[rowIndex - y].length\<close> throws when \<open>rowIndex - y\<close> is no index of the shape;
      it is evaluated only after \<open>colIndex >= x\<close> held\<close>
  "addTetrominoToGrid g gx gy shape col =
     collect (map_from 0
       (\<lambda>row rowIndex.
          if of_nat rowIndex \<ge> gy \<and> of_nat rowIndex < gy + of_nat (length shape) then
            collect (map_from 0
              (\<lambda>cell colIndex.
                 if of_nat colIndex \<ge> gx then
                   (case js_nth shape (of_nat rowIndex - gy) of
                      None \<Rightarrow> Inl TypeError
                    | Some srow \<Rightarrow>
                        Inr (if of_nat colIndex < gx + of_nat (length srow)
                                \<and> cell_at srow (of_nat colIndex - gx) = Some 1
                             then \<lparr>g_color = Some col, g_value = Some 1\<rparr> else cell))
                 else Inr cell)
              row)
          else Inr row)
       g)"

definition findDropPosition :: "Grid \<Rightarrow> number \<Rightarrow> number \<Rightarrow> TetrominoShape \<Rightarrow> error + number" where
  \<comment> \<open>\<open>Array(n)\<close> throws a RangeError unless \<open>n\<close> is an integer from 0 to \<open>2 ^ 32 - 1\<close>\<close>
  "findDropPosition g px py shape =
     (let n = (400 - py) / HEIGHT in
      if \<not> (isInteger n \<and> 0 \<le> n \<and> n < 4294967296) then Inl RangeError
      else
        (case reduce_from 0
                (\<lambda>accY height _.
                   let nextY = accY + height in
                   (case isValidPosition px nextY shape g of
                      Inl e \<Rightarrow> Inl e
                    | Inr b \<Rightarrow> Inr (if b then nextY else accY)))
                py (replicate (nat \<lfloor>n\<rfloor>) HEIGHT) of
           Inl e \<Rightarrow> Inl e
         | Inr returnY \<Rightarrow> Inr (returnY / HEIGHT)))"

section \<open>state.ts\<close>

text \<open>
  \<open>stateChange?.x\<close> and \<open>stateChange?.y\<close>: only a \<open>Move\<close> carries them; they are
  \<open>undefined\<close> for every other event and for a missing argument.
\<close>

definition change_x :: "StateChange option \<Rightarrow> number option" where
  "change_x c = (case c of Some (Move dx dy) \<Rightarrow> Some dx | _ \<Rightarrow> None)"

definition change_y :: "StateChange option \<Rightarrow> number option" where
  "change_y c = (case c of Some (Move dx dy) \<Rightarrow> Some dy | _ \<Rightarrow> None)"

definition or_zero :: "number option \<Rightarrow> number" where
  \<comment> \<open>\<open>v || 0\<close>\<close>
  "or_zero v = (case v of None \<Rightarrow> 0 | Some n \<Rightarrow> n)"

definition clearedGridAndPoints :: "Grid \<Rightarrow> Grid \<times> nat" where
  "clearedGridAndPoints g =
     (let clearedGrid = filter (\<lambda>row. \<not> isRowFilled row) g;
          points = length g - length clearedGrid;
          newRows = replicate points (replicate 10 emptyCell)
      in (newRows @ clearedGrid, points))"

definition updateLevelAndTickRate :: "number \<Rightarrow> number \<Rightarrow> number \<times> number" where
  \<comment> \<open>the pair is \<open>{ level, tickRate }\<close>\<close>
  "updateLevelAndTickRate sc newPoints =
     (let lv = min (of_int \<lfloor>(sc + newPoints) / 5\<rfloor> + 1) 15;
          rate = TICK_RATE_MS - (30 * lv)
      in (lv, rate))"

definition addBombToGrid :: "Grid \<Rightarrow> number \<Rightarrow> number \<Rightarrow> Color \<Rightarrow> Grid" where
  "addBombToGrid g gx gy col =
     map_from 0
       (\<lambda>row rowIndex.
          map_from 0
            (\<lambda>cell colIndex.
               if \<bar>of_nat rowIndex - gy\<bar> \<le> 1 \<and> \<bar>of_nat colIndex - gx\<bar> \<le> 1
               then \<lparr>g_color = Some col, g_value = Some 0\<rparr>
               else cell)
            row)
       g"

definition handleGameEnd :: "State \<Rightarrow> error + State" where
  "handleGameEnd s =
     (case addTetrominoToGrid (grid s)
             (t_x (currentTetromino s) / WIDTH) (t_y (currentTetromino s) / HEIGHT)
             (t_shape (currentTetromino s)) (t_color (currentTetromino s)) of
        Inl e \<Rightarrow> Inl e
      | Inr g \<Rightarrow>
          Inr (s\<lparr>grid := g,
                 currentTetromino := (the (tetrominoShapes ''null''))\<lparr>t_id := t_id (currentTetromino s)\<rparr>,
                 nextTetromino := (the (tetrominoShapes ''null''))\<lparr>t_id := t_id (currentTetromino s)\<rparr>,
                 gameEnd := True,
                 highScore := (if score s > highScore s then score s else highScore s)\<rparr>))"

definition computeGridAndUpdateState :: "(State \<Rightarrow> error + number) \<Rightarrow> State \<Rightarrow> error + State" where
  "computeGridAndUpdateState getY s =
     (let gx = t_x (currentTetromino s) / WIDTH in
      case getY s of
        Inl e \<Rightarrow> Inl e
      | Inr gy \<Rightarrow>
          (case (if t_type (currentTetromino s) \<noteq> Bomb
                 then addTetrominoToGrid (grid s) gx gy
                        (t_shape (currentTetromino s)) (t_color (currentTetromino s))
                 else Inr (addBombToGrid (grid s) gx gy (t_color (currentTetromino s)))) of
             Inl e \<Rightarrow> Inl e
           | Inr g \<Rightarrow>
               (let (newGrid, newPoints) = clearedGridAndPoints g;
                    (lv, rate) = updateLevelAndTickRate (score s) (of_nat newPoints)
                in Inr (s\<lparr>currentTetromino := nextTetromino s,
                          nextTetromino := getRandomTetrimono (round_double (t_id (nextTetromino s) + 1)),
                          grid := newGrid,
                          score := score s + of_nat newPoints,
                          level := lv,
                          tickRate := rate\<rparr>))))"

definition dropTetromino :: "State \<Rightarrow> error + State" where
  "dropTetromino =
     computeGridAndUpdateState
       (\<lambda>s. findDropPosition (grid s) (t_x (currentTetromino s)) (t_y (currentTetromino s))
               (t_shape (currentTetromino s)))"

definition handleAddTetromino :: "State \<Rightarrow> error + State" where
  "handleAddTetromino = computeGridAndUpdateState (\<lambda>s. Inr (t_y (currentTetromino s) / HEIGHT))"

definition tick :: "State \<Rightarrow> error + State" where
  "tick s =
     (case isValidPosition (t_x (currentTetromino s)) (t_y (currentTetromino s))
             (t_shape (currentTetromino s)) (grid s) of
        Inl e \<Rightarrow> Inl e
      | Inr valid \<Rightarrow>
          if \<not> valid then handleGameEnd s
          else
            (case isValidPosition (t_x (currentTetromino s)) (t_y (currentTetromino s) + HEIGHT)
                    (t_shape (currentTetromino s)) (grid s) of
               Inl e \<Rightarrow> Inl e
             | Inr validBelow \<Rightarrow>
                 if \<not> validBelow then handleAddTetromino s
                 else Inr (s\<lparr>currentTetromino :=
                               (currentTetromino s)\<lparr>t_y := t_y (currentTetromino s) + HEIGHT\<rparr>\<rparr>)))"

definition moveAction ::
  "State \<Rightarrow> StateChange option \<Rightarrow> error + number \<times> number \<times> TetrominoShape" where
  \<comment> \<open>the triple is \<open>{ x, y, shape }\<close>\<close>
  "moveAction s stateChange =
     Inr (t_x (currentTetromino s) + or_zero (change_x stateChange),
          t_y (currentTetromino s) + or_zero (change_y stateChange),
          t_shape (currentTetromino s))"

definition rotateAction ::
  "State \<Rightarrow> StateChange option \<Rightarrow> error + number \<times> number \<times> TetrominoShape" where
  "rotateAction s stateChange =
     (case rotateShapeClockwise (t_shape (currentTetromino s)) of
        Inl e \<Rightarrow> Inl e
      | Inr sh \<Rightarrow> Inr (t_x (currentTetromino s), t_y (currentTetromino s), sh))"

definition createTetriminoAction ::
  "(State \<Rightarrow> StateChange option \<Rightarrow> error + number \<times> number \<times> TetrominoShape)
     \<Rightarrow> State \<Rightarrow> StateChange option \<Rightarrow> error + State" where
  "createTetriminoAction actionFn s stateChange =
     (case actionFn s stateChange of
        Inl e \<Rightarrow> Inl e
      | Inr (ux, uy, ushape) \<Rightarrow>
          (case isValidPosition ux uy ushape (grid s) of
             Inl e \<Rightarrow> Inl e
           | Inr valid \<Rightarrow>
               if valid then
                 Inr (s\<lparr>currentTetromino :=
                          (currentTetromino s)\<lparr>t_x := ux, t_y := uy, t_shape := ushape\<rparr>\<rparr>)
               else if change_x stateChange = None \<or> change_x stateChange = Some 0 then tick s
               else Inr s))"

definition moveTetrimino :: "State \<Rightarrow> StateChange option \<Rightarrow> error + State" where
  "moveTetrimino = createTetriminoAction moveAction"

definition rotateTetrimino :: "State \<Rightarrow> StateChange option \<Rightarrow> error + State" where
  "rotateTetrimino = createTetriminoAction rotateAction"

section \<open>main.ts: the reducer\<close>

text \<open>
  \<open>Tick\<close> stands for the numbers the interval emits: no class of the \<open>switch\<close> matches
  them. \<open>rotateTetrimino\<close> is called with the state alone.
\<close>

definition is_Move :: "StateChange \<Rightarrow> bool" where
  "is_Move c = (case c of Move dx dy \<Rightarrow> True | _ \<Rightarrow> False)"

definition reduceState :: "State \<Rightarrow> StateChange \<Rightarrow> error + State" where
  "reduceState s stateChange =
     (if stateChange = Drop \<and> \<not> gameEnd s then dropTetromino s
      else if stateChange = Rotate \<and> \<not> gameEnd s then rotateTetrimino s None
      else if is_Move stateChange \<and> \<not> gameEnd s then moveTetrimino s (Some stateChange)
      else if stateChange = Space \<and> gameEnd s then
        Inr (s\<lparr>gameEnd := False,
               score := 0,
               grid := replicate 20 (replicate 10 emptyCell),
               currentTetromino := getRandomTetrimono 1,
               nextTetromino := getRandomTetrimono 2,
               level := 0\<rparr>)
      else if gameEnd s then Inr s
      else tick s)"

text \<open>\<open>scan(reduceState, initialState)\<close> over a finite prefix of the event stream.\<close>

fun scan :: "State \<Rightarrow> StateChange list \<Rightarrow> error + State" where
  "scan s [] = Inr s"
| "scan s (c # cs) = (case reduceState s c of Inl e \<Rightarrow> Inl e | Inr s' \<Rightarrow> scan s' cs)"

section \<open>Notions used to state the properties\<close>

text \<open>\<open>shape[i]?.[j]\<close>: the entry of a shape at a row and column, \<open>None\<close> outside it.\<close>

definition shape_at :: "TetrominoShape \<Rightarrow> number \<Rightarrow> number \<Rightarrow> number option" where
  "shape_at shape i j = (case js_nth shape i of None \<Rightarrow> None | Some srow \<Rightarrow> cell_at srow j)"

text \<open>Rotating the result of a rotation, when there is one.\<close>

definition then_rotate :: "error + 'a option list list \<Rightarrow> error + 'a option list list" where
  "then_rotate r = (case r of Inl e \<Rightarrow> Inl e | Inr sh \<Rightarrow> rotateShapeClockwise sh)"

text \<open>The entry \<open>null\<close> of \<open>tetrominoShapes\<close> with a given id.\<close>

definition nullPiece :: "nat \<Rightarrow> TetrominoObject" where
  "nullPiece i =
     \<lparr>t_id = i, t_shape = [], t_color = black, t_x = 100, t_y = 0, t_type = ''cube''\<rparr>"

text \<open>
  A piece sits on a block row when its \<open>y\<close> is a whole number of block heights; a move
  keeps pieces there when its \<open>dy\<close> is one (the keys send 0 and one block height).
\<close>

definition blockAligned :: "TetrominoObject \<Rightarrow> bool" where
  "blockAligned t = isInteger (t_y t / HEIGHT)"

definition blockMove :: "StateChange \<Rightarrow> bool" where
  "blockMove c = (case c of Move dx dy \<Rightarrow> isInteger (dy / HEIGHT) | _ \<Rightarrow> True)"

text \<open>The ids of both pieces of a state are integers that doubles hold exactly.\<close>

definition idBounded :: "State \<Rightarrow> bool" where
  "idBounded s = (t_id (currentTetromino s) \<le> 2 ^ 53 \<and> t_id (nextTetromino s) \<le> 2 ^ 53)"

text \<open>Concrete states and grids on which the theorems are instantiated.\<close>

definition filledCell :: GridObject where
  "filledCell = \<lparr>g_color = Some red, g_value = Some 1\<rparr>"

definition endedState :: State where
  "endedState =
     initialState\<lparr>gameEnd := True, score := 7, level := 2, highScore := 7, tickRate := 440\<rparr>"

definition blockedState :: State where
  \<comment> \<open>as in the test of \<open>handleGameEnd\<close>: every cell of the grid is occupied\<close>
  "blockedState =
     initialState\<lparr>grid := replicate 20 (replicate 10 filledCell), score := 3, highScore := 1\<rparr>"

definition smallGrid :: Grid where
  "smallGrid = replicate 4 (replicate 4 filledCell)"

definition sampleShape :: "nat option list list" where
  "sampleShape = [[Some 1, Some 2, Some 3], [Some 4, Some 5, Some 6]]"

definition rightEdgeState :: State where
  \<comment> \<open>the initial state after four moves to the right\<close>
  "rightEdgeState =
     initialState\<lparr>currentTetromino := (getRandomTetrimono 1)\<lparr>t_x := 160\<rparr>\<rparr>"

definition rotatedLShape :: TetrominoShape where
  "rotatedLShape = [[Some 1, Some 1, Some 1], [Some 1, Some 0, Some 0]]"

definition toppingOut :: "StateChange list" where
  \<comment> \<open>ten hard drops pile the pieces up to row 1, where the eleventh piece appears; the
      Tick finds it blocked\<close>
  "toppingOut = [Drop, Drop, Drop, Drop, Drop, Drop, Drop, Drop, Drop, Drop, Tick]"

section \<open>Evaluation and auxiliary lemmas\<close>

lemmas const_defs =
  WIDTH_def HEIGHT_def CANVAS_WIDTH_def CANVAS_HEIGHT_def GRID_WIDTH_def GRID_HEIGHT_def
  TICK_RATE_MS_def

lemma replicate_numeral: "replicate (numeral k) v = v # replicate (pred_numeral k) v"
  by (simp add: numeral_eq_Suc)

lemmas util_defs =
  findDropPosition_def isValidPosition_def isOffScreen_def shapeAndGridCoincide_def
  toGridCoordinates_def js_nth_def cell_at_def isInteger_def const_defs emptyCell_def
  filledCell_def replicate_numeral addTetrominoToGrid_def isRowFilled_def
  rotateShapeClockwise_def

lemma round_double_small: "n < 2 ^ 53 \<Longrightarrow> round_double n = n"
  by (simp add: round_double_def excess.simps)

lemmas gen_defs =
  getRandomTetrimono_def hash_def modulus_def round_double_small RNG_a_def RNG_c_def RNG_m_def
  tetrominoMapping_def tetrominoShapes_def piece_def Bomb_def

lemmas state_defs =
  change_x_def change_y_def or_zero_def clearedGridAndPoints_def updateLevelAndTickRate_def
  addBombToGrid_def handleGameEnd_def computeGridAndUpdateState_def dropTetromino_def
  handleAddTetromino_def tick_def moveAction_def rotateAction_def createTetriminoAction_def
  moveTetrimino_def rotateTetrimino_def is_Move_def reduceState_def

lemma grid_initialState: "grid initialState = replicate 20 (replicate 10 emptyCell)"
  by (simp add: initialState_def)

lemma getRandomTetrimono_1:
  "getRandomTetrimono 1 =
     \<lparr>t_id = 1, t_shape = [[Some 1, Some 0], [Some 1, Some 0], [Some 1, Some 1]],
      t_color = orange, t_x = 80, t_y = 0, t_type = ''lShape''\<rparr>"
  by (simp add: gen_defs const_defs)

lemma getRandomTetrimono_2:
  "getRandomTetrimono 2 =
     \<lparr>t_id = 2, t_shape = [[Some 1, Some 1], [Some 1, Some 1]],
      t_color = blue, t_x = 80, t_y = 0, t_type = ''cube''\<rparr>"
  by (simp add: gen_defs const_defs)

lemma getRandomTetrimono_Suc_0:
  "getRandomTetrimono (Suc 0) =
     \<lparr>t_id = 1, t_shape = [[Some 1, Some 0], [Some 1, Some 0], [Some 1, Some 1]],
      t_color = orange, t_x = 80, t_y = 0, t_type = ''lShape''\<rparr>"
  using getRandomTetrimono_1 by simp

lemmas initial_pieces = getRandomTetrimono_1 getRandomTetrimono_Suc_0 getRandomTetrimono_2

lemma null_entry: "(the (tetrominoShapes ''null''))\<lparr>t_id := i\<rparr> = nullPiece i"
  by (simp add: tetrominoShapes_def piece_def nullPiece_def const_defs)

lemma length_map_from: "length (map_from i f vs) = length vs"
  by (induction vs arbitrary: i) simp_all

lemma nth_map_from: "n < length vs \<Longrightarrow> map_from i f vs ! n = f (vs ! n) (i + n)"
proof (induction vs arbitrary: i n)
  case Nil
  then show ?case by simp
next
  case (Cons v vs)
  show ?case
  proof (cases n)
    case 0
    then show ?thesis by simp
  next
    case (Suc m)
    with Cons.prems have "m < length vs" by simp
    from Cons.IH [OF this, of "i + 1"] Suc show ?thesis by simp
  qed
qed

lemma collect_map_from_Inr:
  "collect (map_from i (\<lambda>v k. Inr (h v k)) vs) = Inr (map_from i h vs)"
  by (induction vs arbitrary: i) simp_all

lemma map_from_same: "map_from i (\<lambda>v k. v) vs = vs"
  by (induction vs arbitrary: i) simp_all

lemma isInteger_Ints: "isInteger k = (k \<in> \<int>)"
  by (auto simp: isInteger_def Ints_def)

lemma js_nth_of_nat: "js_nth vs (of_nat n) = (if n < length vs then Some (vs ! n) else None)"
  by (simp add: js_nth_def isInteger_def)

lemma cell_at_of_nat: "cell_at row (of_nat n) = (if n < length row then row ! n else None)"
  by (simp add: cell_at_def js_nth_of_nat)

lemma js_nth_Some_range: "js_nth vs k = Some v \<Longrightarrow> 0 \<le> k \<and> k < of_nat (length vs)"
  by (simp add: js_nth_def split: if_splits)

lemma cell_at_Some_range: "cell_at row k = Some v \<Longrightarrow> 0 \<le> k \<and> k < of_nat (length row)"
  by (auto simp: cell_at_def dest: js_nth_Some_range split: option.splits)

lemma addTetrominoToGrid_aligned:
  assumes gy: "isInteger gy"
  shows "addTetrominoToGrid g gx gy shape col =
         Inr (map_from 0
                (\<lambda>row rowIndex.
                   map_from 0
                     (\<lambda>cell colIndex.
                        if shape_at shape (of_nat rowIndex - gy) (of_nat colIndex - gx) = Some 1
                        then \<lparr>g_color = Some col, g_value = Some 1\<rparr> else cell)
                     row)
                g)"
proof -
  let ?new = "\<lparr>g_color = Some col, g_value = Some 1\<rparr>"
  let ?cellf = "\<lambda>(rowIndex::nat) cell (colIndex::nat).
      if shape_at shape (of_nat rowIndex - gy) (of_nat colIndex - gx) = Some 1 then ?new else cell"
  let ?rowcb = "\<lambda>row (rowIndex::nat).
      if of_nat rowIndex \<ge> gy \<and> of_nat rowIndex < gy + of_nat (length shape) then
        collect (map_from 0
          (\<lambda>cell (colIndex::nat).
             if of_nat colIndex \<ge> gx then
               (case js_nth shape (of_nat rowIndex - gy) of
                  None \<Rightarrow> Inl TypeError
                | Some srow \<Rightarrow>
                    Inr (if of_nat colIndex < gx + of_nat (length srow)
                            \<and> cell_at srow (of_nat colIndex - gx) = Some 1
                         then ?new else cell))
             else Inr cell)
          row)
      else Inr row"
  have "?rowcb = (\<lambda>row rowIndex. Inr (map_from 0 (?cellf rowIndex) row))"
  proof (intro ext)
    fix row :: "GridObject list" and rowIndex :: nat
    let ?k = "of_nat rowIndex - gy"
    have int_k: "isInteger ?k"
      using gy by (simp add: isInteger_Ints)
    show "?rowcb row rowIndex = Inr (map_from 0 (?cellf rowIndex) row)"
    proof (cases "of_nat rowIndex \<ge> gy \<and> of_nat rowIndex < gy + of_nat (length shape)")
      case True
      then have "0 \<le> ?k" and "?k < of_nat (length shape)" by simp_all
      with int_k obtain srow where srow: "js_nth shape ?k = Some srow"
        by (simp add: js_nth_def)
      have "(\<lambda>cell (colIndex::nat).
               if of_nat colIndex \<ge> gx then
                 (case js_nth shape ?k of
                    None \<Rightarrow> Inl TypeError
                  | Some srow \<Rightarrow>
                      Inr (if of_nat colIndex < gx + of_nat (length srow)
                              \<and> cell_at srow (of_nat colIndex - gx) = Some 1
                           then ?new else cell))
               else Inr cell)
            = (\<lambda>cell colIndex. Inr (?cellf rowIndex cell colIndex))"
      proof (intro ext)
        fix cell :: GridObject and colIndex :: nat
        have "cell_at srow (of_nat colIndex - gx) = Some 1 \<Longrightarrow>
                of_nat colIndex \<ge> gx \<and> of_nat colIndex < gx + of_nat (length srow)"
          by (drule cell_at_Some_range) simp
        then show "(if of_nat colIndex \<ge> gx then
                 (case js_nth shape ?k of
                    None \<Rightarrow> Inl TypeError
                  | Some srow \<Rightarrow>
                      Inr (if of_nat colIndex < gx + of_nat (length srow)
                              \<and> cell_at srow (of_nat colIndex - gx) = Some 1
                           then ?new else cell))
               else Inr cell) = Inr (?cellf rowIndex cell colIndex)"
          by (auto simp: srow shape_at_def)
      qed
      with True show ?thesis
        by (simp add: collect_map_from_Inr)
    next
      case False
      then have "\<not> (0 \<le> ?k \<and> ?k < of_nat (length shape))" by auto
      then have "js_nth shape ?k = None" by (auto simp: js_nth_def)
      then have "?cellf rowIndex = (\<lambda>cell colIndex. cell)"
        by (simp add: shape_at_def)
      then have "map_from 0 (?cellf rowIndex) row = row"
        by (simp only: map_from_same)
      moreover have "?rowcb row rowIndex = Inr row"
        by (rule if_not_P [OF False])
      ultimately show ?thesis by (simp only:)
    qed
  qed
  then show ?thesis
    by (simp add: addTetrominoToGrid_def collect_map_from_Inr)
qed

lemma rotate_rectangular:
  assumes "shape \<noteq> []" and "\<forall>row \<in> set shape. length row = n"
  shows "rotateShapeClockwise shape = Inr (map (\<lambda>col. map (\<lambda>row. row ! col) (rev shape)) [0..<n])"
proof -
  from assms obtain r0 rest where sh: "shape = r0 # rest" by (cases shape) auto
  with assms have n: "length r0 = n" by simp
  have "map (\<lambda>col. map (\<lambda>row. cell_at row (of_nat col)) (rev shape)) [0..<n]
        = map (\<lambda>col. map (\<lambda>row. row ! col) (rev shape)) [0..<n]"
    using assms(2) by (auto simp: cell_at_of_nat)
  then show ?thesis by (simp add: rotateShapeClockwise_def sh n [symmetric])
qed

lemma rotate_twice:
  assumes ne: "shape \<noteq> []" and pos: "0 < n" and rect: "\<forall>row \<in> set shape. length row = n"
  shows "then_rotate (rotateShapeClockwise shape) = Inr (rev (map rev shape))"
proof -
  let ?once = "map (\<lambda>col. map (\<lambda>row. row ! col) (rev shape)) [0..<n]"
  have once: "rotateShapeClockwise shape = Inr ?once"
    by (rule rotate_rectangular [OF ne rect])
  have ne1: "?once \<noteq> []" using pos by simp
  have rect1: "\<forall>row \<in> set ?once. length row = length shape" by auto
  have twice: "rotateShapeClockwise ?once
      = Inr (map (\<lambda>col. map (\<lambda>row. row ! col) (rev ?once)) [0..<length shape])"
    by (rule rotate_rectangular [OF ne1 rect1])
  have "map (\<lambda>col. map (\<lambda>row. row ! col) (rev ?once)) [0..<length shape] = rev (map rev shape)"
  proof (rule nth_equalityI)
    show "length (map (\<lambda>col. map (\<lambda>row. row ! col) (rev ?once)) [0..<length shape])
          = length (rev (map rev shape))" by simp
  next
    fix i
    assume "i < length (map (\<lambda>col. map (\<lambda>row. row ! col) (rev ?once)) [0..<length shape])"
    then have i: "i < length shape" by simp
    then have row_len: "length (shape ! (length shape - Suc i)) = n"
      using rect by (simp add: nth_mem)
    have "map (\<lambda>row. row ! i) (rev ?once) = rev (shape ! (length shape - Suc i))"
    proof (rule nth_equalityI)
      show "length (map (\<lambda>row. row ! i) (rev ?once)) = length (rev (shape ! (length shape - Suc i)))"
        by (simp add: row_len)
    next
      fix j
      assume "j < length (map (\<lambda>row. row ! i) (rev ?once))"
      then have j: "j < n" by simp
      then show "map (\<lambda>row. row ! i) (rev ?once) ! j = rev (shape ! (length shape - Suc i)) ! j"
        using i by (simp add: rev_nth row_len)
    qed
    then show "map (\<lambda>col. map (\<lambda>row. row ! col) (rev ?once)) [0..<length shape] ! i
               = rev (map rev shape) ! i"
      using i by (simp add: rev_nth)
  qed
  with once twice show ?thesis by (simp add: then_rotate_def)
qed

section \<open>The generator's tables\<close>

lemma excess_power_le: "1 \<le> n \<Longrightarrow> 2 ^ excess n \<le> n"
proof (induction n rule: excess.induct)
  case (1 n)
  show ?case
  proof (cases "n < 2 ^ 53")
    case True
    with "1.prems" show ?thesis by (simp add: excess.simps)
  next
    case False
    then have half: "1 \<le> n div 2" by simp
    from "1.IH" [OF False half] have "2 * 2 ^ excess (n div 2) \<le> 2 * (n div 2)" by simp
    also have "\<dots> \<le> n" by simp
    finally show ?thesis using False by (simp add: excess.simps [of n])
  qed
qed

lemma round_double_le: "round_double n \<le> 2 * n"
proof (cases "n = 0")
  case True
  then show ?thesis by (simp add: round_double_small)
next
  case False
  then have e: "2 ^ excess n \<le> n" by (simp add: excess_power_le)
  have q: "n div 2 ^ excess n * 2 ^ excess n \<le> n" by simp
  have "round_double n \<le> (n div 2 ^ excess n + 1) * 2 ^ excess n"
    by (simp add: round_double_def Let_def)
  also have "\<dots> = n div 2 ^ excess n * 2 ^ excess n + 2 ^ excess n"
    by (simp add: algebra_simps)
  also have "\<dots> \<le> n + n" using q e by (rule add_mono)
  finally show ?thesis by simp
qed

lemma round_double_succ:
  assumes "n \<le> 2 ^ 53"
  shows "round_double (n + 1) \<le> 2 ^ 53"
proof -
  consider "n + 1 < 2 ^ 53" | "n + 1 = 2 ^ 53" | "n = 2 ^ 53"
    using assms by linarith
  then show ?thesis
  proof cases
    case 1
    then show ?thesis by (simp add: round_double_small)
  next
    case 2
    then show ?thesis by (simp add: round_double_def excess.simps)
  next
    case 3
    then show ?thesis by (simp add: round_double_def excess.simps)
  qed
qed

lemma hash_no_overflow:
  assumes "i \<le> 2 ^ 53"
  shows "RNG_a * round_double (12345 + i) + RNG_c < 2 ^ 1024"
proof -
  have "round_double (12345 + i) \<le> 2 * (12345 + i)" by (rule round_double_le)
  also have "\<dots> \<le> 2 * (12345 + 2 ^ 53)" using assms by simp
  finally have "RNG_a * round_double (12345 + i) \<le> RNG_a * (2 * (12345 + 2 ^ 53))"
    by (rule mult_le_mono2)
  then show ?thesis by (simp add: RNG_a_def RNG_c_def)
qed

lemma mapping_entries:
  "tetrominoMapping 0 = Some ''cube''" "tetrominoMapping 1 = Some ''line''"
  "tetrominoMapping 2 = Some ''tee''" "tetrominoMapping 3 = Some ''lShape''"
  "tetrominoMapping 4 = Some ''reverseLShape''" "tetrominoMapping 5 = Some ''zShape''"
  "tetrominoMapping 6 = Some ''reverseZShape''" "tetrominoMapping 7 = Some ''Bomb''"
  by (simp_all add: tetrominoMapping_def Bomb_def)

lemma shape_entries:
  "tetrominoShapes ''cube'' = Some (piece ''cube'' [[Some 1, Some 1], [Some 1, Some 1]] blue (WIDTH * 4))"
  "tetrominoShapes ''line'' = Some (piece ''line'' [[Some 1, Some 1, Some 1, Some 1]] cyan (WIDTH * 3))"
  "tetrominoShapes ''tee'' =
     Some (piece ''tee'' [[Some 0, Some 1, Some 0], [Some 1, Some 1, Some 1]] purple (WIDTH * 4))"
  "tetrominoShapes ''lShape'' =
     Some (piece ''lShape'' [[Some 1, Some 0], [Some 1, Some 0], [Some 1, Some 1]] orange (WIDTH * 4))"
  "tetrominoShapes ''reverseLShape'' =
     Some (piece ''reverseLShape'' [[Some 0, Some 1], [Some 0, Some 1], [Some 1, Some 1]] red (WIDTH * 4))"
  "tetrominoShapes ''zShape'' =
     Some (piece ''zShape'' [[Some 1, Some 1, Some 0], [Some 0, Some 1, Some 1]] yellow (WIDTH * 4))"
  "tetrominoShapes ''reverseZShape'' =
     Some (piece ''reverseZShape'' [[Some 0, Some 1, Some 1], [Some 1, Some 1, Some 0]] green (WIDTH * 4))"
  "tetrominoShapes ''Bomb'' = Some (piece ''Bomb'' [[Some 1]] black (WIDTH * 5))"
  by (simp_all add: tetrominoShapes_def Bomb_def)

lemma m_multiple: "RNG_m = 8 * 268435456"
  by (simp add: RNG_m_def)

lemma lcg_split: "RNG_a * (12345 + i) + RNG_c = 8 * (137939405 * (12345 + i) + 9258) + (5 * i + 6)"
  by (simp add: RNG_a_def RNG_c_def)

lemma lcg_exact:
  assumes "i \<le> 8149933"
  shows "RNG_a * (12345 + i) + RNG_c < 2 ^ 53"
proof -
  from assms have "RNG_a * (12345 + i) \<le> RNG_a * (12345 + 8149933)"
    by (intro mult_le_mono2) simp
  then show ?thesis by (simp add: RNG_a_def RNG_c_def)
qed

lemma closed_form:
  assumes "i \<le> 8149933"
  shows "modulus (hash (round_double (12345 + i))) = (5 * i + 6) mod 8"
proof -
  have sum: "RNG_a * (12345 + i) + RNG_c < 2 ^ 53"
    by (rule lcg_exact [OF assms])
  then have prod: "RNG_a * (12345 + i) < 2 ^ 53" by simp
  from assms have seed: "12345 + i < (2::nat) ^ 53" by simp
  have exact: "hash (round_double (12345 + i)) = (RNG_a * (12345 + i) + RNG_c) mod RNG_m"
    by (simp only: hash_def round_double_small [OF seed] round_double_small [OF prod]
        round_double_small [OF sum])
  have "(8::nat) dvd RNG_m"
    unfolding m_multiple by (rule dvd_triv_left)
  then have "modulus (hash (round_double (12345 + i))) = (RNG_a * (12345 + i) + RNG_c) mod 8"
    unfolding modulus_def exact by (rule mod_mod_cancel)
  also have "\<dots> = (5 * i + 6) mod 8"
    unfolding lcg_split by (rule mod_mult_self4)
  finally show ?thesis .
qed

lemma kind_cases:
  "\<exists>n k ty sh col px. modulus (hash (round_double (12345 + i))) = n \<and> tetrominoMapping n = Some k
      \<and> k \<in> set [''cube'', ''line'', ''tee'', ''lShape'', ''reverseLShape'', ''zShape'',
                    ''reverseZShape'', ''Bomb'']
      \<and> tetrominoShapes k = Some (piece ty sh col px)"
proof -
  define n where "n = modulus (hash (round_double (12345 + i)))"
  then have n: "modulus (hash (round_double (12345 + i))) = n" by simp
  have "n < 8"
    unfolding n_def modulus_def by simp
  then consider "n = 0" | "n = 1" | "n = 2" | "n = 3" | "n = 4" | "n = 5" | "n = 6" | "n = 7"
    by arith
  then show ?thesis
  proof cases
    case 1
    have "''cube'' \<in> set [''cube'', ''line'', ''tee'', ''lShape'', ''reverseLShape'', ''zShape'',
                    ''reverseZShape'', ''Bomb'']" by simp
    with n [unfolded 1] mapping_entries(1) shape_entries(1) show ?thesis by blast
  next
    case 2
    have "''line'' \<in> set [''cube'', ''line'', ''tee'', ''lShape'', ''reverseLShape'', ''zShape'',
                    ''reverseZShape'', ''Bomb'']" by simp
    with n [unfolded 2] mapping_entries(2) shape_entries(2) show ?thesis by blast
  next
    case 3
    have "''tee'' \<in> set [''cube'', ''line'', ''tee'', ''lShape'', ''reverseLShape'', ''zShape'',
                    ''reverseZShape'', ''Bomb'']" by simp
    with n [unfolded 3] mapping_entries(3) shape_entries(3) show ?thesis by blast
  next
    case 4
    have "''lShape'' \<in> set [''cube'', ''line'', ''tee'', ''lShape'', ''reverseLShape'', ''zShape'',
                    ''reverseZShape'', ''Bomb'']" by simp
    with n [unfolded 4] mapping_entries(4) shape_entries(4) show ?thesis by blast
  next
    case 5
    have "''reverseLShape'' \<in> set [''cube'', ''line'', ''tee'', ''lShape'', ''reverseLShape'',
                    ''zShape'', ''reverseZShape'', ''Bomb'']" by simp
    with n [unfolded 5] mapping_entries(5) shape_entries(5) show ?thesis by blast
  next
    case 6
    have "''zShape'' \<in> set [''cube'', ''line'', ''tee'', ''lShape'', ''reverseLShape'', ''zShape'',
                    ''reverseZShape'', ''Bomb'']" by simp
    with n [unfolded 6] mapping_entries(6) shape_entries(6) show ?thesis by blast
  next
    case 7
    have "''reverseZShape'' \<in> set [''cube'', ''line'', ''tee'', ''lShape'', ''reverseLShape'',
                    ''zShape'', ''reverseZShape'', ''Bomb'']" by simp
    with n [unfolded 7] mapping_entries(7) shape_entries(7) show ?thesis by blast
  next
    case 8
    have "''Bomb'' \<in> set [''cube'', ''line'', ''tee'', ''lShape'', ''reverseLShape'', ''zShape'',
                    ''reverseZShape'', ''Bomb'']" by simp
    with n [unfolded 8] mapping_entries(8) shape_entries(8) show ?thesis by blast
  qed
qed

lemma getRandomTetrimono_entry:
  "\<exists>k t. tetrominoMapping (modulus (hash (round_double (12345 + i)))) = Some k
      \<and> k \<in> set [''cube'', ''line'', ''tee'', ''lShape'', ''reverseLShape'', ''zShape'',
                    ''reverseZShape'', ''Bomb'']
      \<and> tetrominoShapes k = Some t
      \<and> getRandomTetrimono i = t\<lparr>t_id := i\<rparr>
      \<and> t_y (getRandomTetrimono i) = 0
      \<and> t_id (getRandomTetrimono i) = i"
proof -
  from kind_cases [of i] obtain n k ty sh col px where
    n: "modulus (hash (round_double (12345 + i))) = n" and k: "tetrominoMapping n = Some k"
    and mem: "k \<in> set [''cube'', ''line'', ''tee'', ''lShape'', ''reverseLShape'', ''zShape'',
                  ''reverseZShape'', ''Bomb'']"
    and t: "tetrominoShapes k = Some (piece ty sh col px)"
    by blast
  have eq: "getRandomTetrimono i = (piece ty sh col px)\<lparr>t_id := i\<rparr>"
    by (simp only: getRandomTetrimono_def Let_def n k t option.sel)
  have "t_y (getRandomTetrimono i) = 0" "t_id (getRandomTetrimono i) = i"
    by (simp_all add: eq piece_def)
  with n k mem t eq show ?thesis by blast
qed

lemma getRandomTetrimono_id: "t_id (getRandomTetrimono i) = i"
  using getRandomTetrimono_entry [of i] by blast

lemma getRandomTetrimono_y: "t_y (getRandomTetrimono i) = 0"
proof -
  from kind_cases [of i] obtain n k ty sh col px where
    "modulus (hash (round_double (12345 + i))) = n" "tetrominoMapping n = Some k"
    "tetrominoShapes k = Some (piece ty sh col px)"
    by blast
  then show ?thesis
    by (simp add: getRandomTetrimono_def Let_def piece_def)
qed

section \<open>Pieces stay on block rows\<close>

text \<open>
  Every state the reducer reaches from the initial state, by events whose moves go down
  by whole blocks, has its current piece on a block row.
\<close>

lemma blockAligned_generated: "blockAligned (getRandomTetrimono i)"
  by (simp add: blockAligned_def getRandomTetrimono_y isInteger_def)

lemma isInteger_block: "isInteger (HEIGHT / HEIGHT)"
  by (simp add: isInteger_def const_defs)

lemma settle_aligned:
  assumes nxt: "blockAligned (nextTetromino s)" and run: "computeGridAndUpdateState getY s = Inr s'"
  shows "blockAligned (currentTetromino s') \<and> blockAligned (nextTetromino s')"
proof (cases "getY s")
  case (Inl e)
  with run show ?thesis by (simp add: computeGridAndUpdateState_def)
next
  case y: (Inr gy)
  let ?stamped = "if t_type (currentTetromino s) \<noteq> Bomb
                  then addTetrominoToGrid (grid s) (t_x (currentTetromino s) / WIDTH) gy
                         (t_shape (currentTetromino s)) (t_color (currentTetromino s))
                  else Inr (addBombToGrid (grid s) (t_x (currentTetromino s) / WIDTH) gy
                         (t_color (currentTetromino s)))"
  show ?thesis
  proof (cases ?stamped)
    case (Inl e)
    with y run show ?thesis by (simp add: computeGridAndUpdateState_def)
  next
    case (Inr g)
    with y run have "currentTetromino s' = nextTetromino s
        \<and> nextTetromino s' = getRandomTetrimono (round_double (t_id (nextTetromino s) + 1))"
      by (simp add: computeGridAndUpdateState_def split_beta) (erule subst, simp)
    with nxt show ?thesis by (simp add: blockAligned_generated)
  qed
qed

lemma handleGameEnd_aligned:
  assumes run: "handleGameEnd s = Inr s'"
  shows "blockAligned (currentTetromino s') \<and> blockAligned (nextTetromino s')"
proof (cases "addTetrominoToGrid (grid s)
             (t_x (currentTetromino s) / WIDTH) (t_y (currentTetromino s) / HEIGHT)
             (t_shape (currentTetromino s)) (t_color (currentTetromino s))")
  case (Inl e)
  with run show ?thesis by (simp add: handleGameEnd_def)
next
  case (Inr g)
  with run have "currentTetromino s' = nullPiece (t_id (currentTetromino s))
      \<and> nextTetromino s' = nullPiece (t_id (currentTetromino s))"
    by (simp add: handleGameEnd_def null_entry) (erule subst, simp)
  then show ?thesis
    by (simp add: nullPiece_def blockAligned_def isInteger_def)
qed

lemma tick_aligned:
  assumes cur: "blockAligned (currentTetromino s)" and nxt: "blockAligned (nextTetromino s)"
    and run: "tick s = Inr s'"
  shows "blockAligned (currentTetromino s') \<and> blockAligned (nextTetromino s')"
proof (cases "isValidPosition (t_x (currentTetromino s)) (t_y (currentTetromino s))
                (t_shape (currentTetromino s)) (grid s)")
  case (Inl e)
  with run show ?thesis by (simp add: tick_def)
next
  case here: (Inr valid)
  show ?thesis
  proof (cases valid)
    case False
    with here run have "handleGameEnd s = Inr s'" by (simp add: tick_def)
    then show ?thesis by (rule handleGameEnd_aligned)
  next
    case True
    show ?thesis
    proof (cases "isValidPosition (t_x (currentTetromino s)) (t_y (currentTetromino s) + HEIGHT)
                    (t_shape (currentTetromino s)) (grid s)")
      case (Inl e)
      with here True run show ?thesis by (simp add: tick_def)
    next
      case below: (Inr validBelow)
      show ?thesis
      proof (cases validBelow)
        case False
        with here True below run have "handleAddTetromino s = Inr s'" by (simp add: tick_def)
        then show ?thesis
          unfolding handleAddTetromino_def by (rule settle_aligned [OF nxt])
      next
        case yes: True
        with here True below run
        have "s' = s\<lparr>currentTetromino :=
                      (currentTetromino s)\<lparr>t_y := t_y (currentTetromino s) + HEIGHT\<rparr>\<rparr>"
          by (simp add: tick_def)
        then have "t_y (currentTetromino s') = t_y (currentTetromino s) + HEIGHT"
          and "nextTetromino s' = nextTetromino s"
          by simp_all
        with cur nxt isInteger_block show ?thesis
          by (simp add: blockAligned_def isInteger_Ints add_divide_distrib)
      qed
    qed
  qed
qed

lemma action_aligned:
  assumes cur: "blockAligned (currentTetromino s)" and nxt: "blockAligned (nextTetromino s)"
    and act: "\<And>ux uy ushape. actionFn s c = Inr (ux, uy, ushape) \<Longrightarrow>
                isInteger (uy / HEIGHT)"
    and run: "createTetriminoAction actionFn s c = Inr s'"
  shows "blockAligned (currentTetromino s') \<and> blockAligned (nextTetromino s')"
proof (cases "actionFn s c")
  case (Inl e)
  with run show ?thesis by (simp add: createTetriminoAction_def)
next
  case (Inr u)
  then obtain ux uy ushape where u: "actionFn s c = Inr (ux, uy, ushape)"
    by (cases u) simp
  show ?thesis
  proof (cases "isValidPosition ux uy ushape (grid s)")
    case (Inl e)
    with u run show ?thesis by (simp add: createTetriminoAction_def)
  next
    case target: (Inr valid)
    show ?thesis
    proof (cases valid)
      case True
      with u target run
      have "s' = s\<lparr>currentTetromino :=
                    (currentTetromino s)\<lparr>t_x := ux, t_y := uy, t_shape := ushape\<rparr>\<rparr>"
        by (simp add: createTetriminoAction_def)
      then have "t_y (currentTetromino s') = uy" and "nextTetromino s' = nextTetromino s"
        by simp_all
      with act [OF u] nxt show ?thesis by (simp add: blockAligned_def)
    next
      case False
      show ?thesis
      proof (cases "change_x c = None \<or> change_x c = Some 0")
        case True
        with u target False run have "tick s = Inr s'"
          by (simp add: createTetriminoAction_def)
        then show ?thesis by (rule tick_aligned [OF cur nxt])
      next
        case no_tick: False
        with u target False run have "s' = s"
          by (simp add: createTetriminoAction_def)
        with cur nxt show ?thesis by simp
      qed
    qed
  qed
qed

lemma reduceState_aligned:
  assumes cur: "blockAligned (currentTetromino s)" and nxt: "blockAligned (nextTetromino s)"
    and ev: "blockMove c" and run: "reduceState s c = Inr s'"
  shows "blockAligned (currentTetromino s') \<and> blockAligned (nextTetromino s')"
proof -
  consider (drop) "c = Drop \<and> \<not> gameEnd s"
    | (rotate) "\<not> (c = Drop \<and> \<not> gameEnd s)" "c = Rotate \<and> \<not> gameEnd s"
    | (move) "\<not> (c = Drop \<and> \<not> gameEnd s)" "\<not> (c = Rotate \<and> \<not> gameEnd s)"
        "is_Move c \<and> \<not> gameEnd s"
    | (restart) "\<not> (c = Drop \<and> \<not> gameEnd s)" "\<not> (c = Rotate \<and> \<not> gameEnd s)"
        "\<not> (is_Move c \<and> \<not> gameEnd s)" "c = Space \<and> gameEnd s"
    | (same) "\<not> (c = Drop \<and> \<not> gameEnd s)" "\<not> (c = Rotate \<and> \<not> gameEnd s)"
        "\<not> (is_Move c \<and> \<not> gameEnd s)" "\<not> (c = Space \<and> gameEnd s)" "gameEnd s"
    | (ticked) "\<not> (c = Drop \<and> \<not> gameEnd s)" "\<not> (c = Rotate \<and> \<not> gameEnd s)"
        "\<not> (is_Move c \<and> \<not> gameEnd s)" "\<not> (c = Space \<and> gameEnd s)" "\<not> gameEnd s"
    by blast
  then show ?thesis
  proof cases
    case drop
    with run have "dropTetromino s = Inr s'" by (simp add: reduceState_def)
    then show ?thesis
      unfolding dropTetromino_def by (rule settle_aligned [OF nxt])
  next
    case rotate
    with run have r: "createTetriminoAction rotateAction s None = Inr s'"
      by (simp add: reduceState_def rotateTetrimino_def)
    have "\<And>ux uy ushape. rotateAction s None = Inr (ux, uy, ushape) \<Longrightarrow> isInteger (uy / HEIGHT)"
      using cur by (auto simp: rotateAction_def blockAligned_def split: sum.splits)
    from action_aligned [OF cur nxt this r] show ?thesis .
  next
    case move
    with run have m: "createTetriminoAction moveAction s (Some c) = Inr s'"
      by (simp add: reduceState_def moveTetrimino_def)
    from move(3) ev obtain dx dy where c: "c = Move dx dy" and dy: "isInteger (dy / HEIGHT)"
      by (cases c) (simp_all add: is_Move_def blockMove_def)
    have "\<And>ux uy ushape. moveAction s (Some c) = Inr (ux, uy, ushape) \<Longrightarrow> isInteger (uy / HEIGHT)"
      using cur dy
      by (auto simp: moveAction_def c change_y_def or_zero_def blockAligned_def isInteger_Ints
          add_divide_distrib)
    from action_aligned [OF cur nxt this m] show ?thesis .
  next
    case restart
    with run have "currentTetromino s' = getRandomTetrimono 1
        \<and> nextTetromino s' = getRandomTetrimono 2"
      by (simp add: reduceState_def) (erule subst, simp)
    then show ?thesis by (simp add: blockAligned_generated)
  next
    case same
    with run have "s' = s" by (simp add: reduceState_def)
    with cur nxt show ?thesis by simp
  next
    case ticked
    with run have "tick s = Inr s'" by (simp add: reduceState_def)
    then show ?thesis by (rule tick_aligned [OF cur nxt])
  qed
qed

lemma scan_aligned:
  assumes "blockAligned (currentTetromino s)" and "blockAligned (nextTetromino s)"
    and "list_all blockMove cs" and "scan s cs = Inr s'"
  shows "blockAligned (currentTetromino s')"
  using assms
proof (induction cs arbitrary: s)
  case Nil
  then show ?case by simp
next
  case (Cons c cs)
  from Cons.prems(4) obtain s1 where step: "reduceState s c = Inr s1" and rest: "scan s1 cs = Inr s'"
    by (auto split: sum.splits)
  from Cons.prems(3) have c: "blockMove c" and cs: "list_all blockMove cs" by simp_all
  from reduceState_aligned [OF Cons.prems(1,2) c step]
  have "blockAligned (currentTetromino s1)" and "blockAligned (nextTetromino s1)" by simp_all
  then show ?case using cs rest by (rule Cons.IH)
qed

lemma reachable_aligned:
  assumes "list_all blockMove cs" and "scan initialState cs = Inr s"
  shows "isInteger (t_y (currentTetromino s) / HEIGHT)"
proof -
  have "blockAligned (currentTetromino initialState)" "blockAligned (nextTetromino initialState)"
    by (simp_all add: initialState_def blockAligned_generated)
  from scan_aligned [OF this assms] show ?thesis by (simp add: blockAligned_def)
qed

section \<open>Ids stay within the exact integers\<close>

text \<open>
  Every state the reducer reaches from the initial state carries ids of at most \<open>2 ^ 53\<close>,
  and so does the id it passes to the generator: there the sum \<open>id + 1\<close> rounds back to
  \<open>2 ^ 53\<close>.
\<close>

lemma settle_ids:
  assumes inv: "idBounded s" and run: "computeGridAndUpdateState getY s = Inr s'"
  shows "idBounded s'"
proof (cases "getY s")
  case (Inl e)
  with run show ?thesis by (simp add: computeGridAndUpdateState_def)
next
  case y: (Inr gy)
  let ?stamped = "if t_type (currentTetromino s) \<noteq> Bomb
                  then addTetrominoToGrid (grid s) (t_x (currentTetromino s) / WIDTH) gy
                         (t_shape (currentTetromino s)) (t_color (currentTetromino s))
                  else Inr (addBombToGrid (grid s) (t_x (currentTetromino s) / WIDTH) gy
                         (t_color (currentTetromino s)))"
  show ?thesis
  proof (cases ?stamped)
    case (Inl e)
    with y run show ?thesis by (simp add: computeGridAndUpdateState_def)
  next
    case (Inr g)
    with y run have "currentTetromino s' = nextTetromino s
        \<and> nextTetromino s' = getRandomTetrimono (round_double (t_id (nextTetromino s) + 1))"
      by (simp add: computeGridAndUpdateState_def split_beta) (erule subst, simp)
    moreover from inv have "round_double (t_id (nextTetromino s) + 1) \<le> 2 ^ 53"
      unfolding idBounded_def by (intro round_double_succ) simp
    ultimately show ?thesis
      using inv by (simp add: idBounded_def getRandomTetrimono_id)
  qed
qed

lemma handleGameEnd_ids:
  assumes inv: "idBounded s" and run: "handleGameEnd s = Inr s'"
  shows "idBounded s'"
proof (cases "addTetrominoToGrid (grid s)
             (t_x (currentTetromino s) / WIDTH) (t_y (currentTetromino s) / HEIGHT)
             (t_shape (currentTetromino s)) (t_color (currentTetromino s))")
  case (Inl e)
  with run show ?thesis by (simp add: handleGameEnd_def)
next
  case (Inr g)
  with run have "currentTetromino s' = nullPiece (t_id (currentTetromino s))
      \<and> nextTetromino s' = nullPiece (t_id (currentTetromino s))"
    by (simp add: handleGameEnd_def null_entry) (erule subst, simp)
  with inv show ?thesis
    by (simp add: nullPiece_def idBounded_def)
qed

lemma tick_ids:
  assumes inv: "idBounded s" and run: "tick s = Inr s'"
  shows "idBounded s'"
proof (cases "isValidPosition (t_x (currentTetromino s)) (t_y (currentTetromino s))
                (t_shape (currentTetromino s)) (grid s)")
  case (Inl e)
  with run show ?thesis by (simp add: tick_def)
next
  case here: (Inr valid)
  show ?thesis
  proof (cases valid)
    case False
    with here run have "handleGameEnd s = Inr s'" by (simp add: tick_def)
    then show ?thesis by (rule handleGameEnd_ids [OF inv])
  next
    case True
    show ?thesis
    proof (cases "isValidPosition (t_x (currentTetromino s)) (t_y (currentTetromino s) + HEIGHT)
                    (t_shape (currentTetromino s)) (grid s)")
      case (Inl e)
      with here True run show ?thesis by (simp add: tick_def)
    next
      case below: (Inr validBelow)
      show ?thesis
      proof (cases validBelow)
        case False
        with here True below run have "handleAddTetromino s = Inr s'" by (simp add: tick_def)
        then show ?thesis
          unfolding handleAddTetromino_def by (rule settle_ids [OF inv])
      next
        case yes: True
        with here True below run
        have "s' = s\<lparr>currentTetromino :=
                      (currentTetromino s)\<lparr>t_y := t_y (currentTetromino s) + HEIGHT\<rparr>\<rparr>"
          by (simp add: tick_def)
        then have "t_id (currentTetromino s') = t_id (currentTetromino s)"
          and "nextTetromino s' = nextTetromino s"
          by simp_all
        with inv show ?thesis by (simp add: idBounded_def)
      qed
    qed
  qed
qed

lemma action_ids:
  assumes inv: "idBounded s" and run: "createTetriminoAction actionFn s c = Inr s'"
  shows "idBounded s'"
proof (cases "actionFn s c")
  case (Inl e)
  with run show ?thesis by (simp add: createTetriminoAction_def)
next
  case (Inr u)
  then obtain ux uy ushape where u: "actionFn s c = Inr (ux, uy, ushape)"
    by (cases u) simp
  show ?thesis
  proof (cases "isValidPosition ux uy ushape (grid s)")
    case (Inl e)
    with u run show ?thesis by (simp add: createTetriminoAction_def)
  next
    case target: (Inr valid)
    show ?thesis
    proof (cases valid)
      case True
      with u target run
      have "s' = s\<lparr>currentTetromino :=
                    (currentTetromino s)\<lparr>t_x := ux, t_y := uy, t_shape := ushape\<rparr>\<rparr>"
        by (simp add: createTetriminoAction_def)
      then have "t_id (currentTetromino s') = t_id (currentTetromino s)"
        and "nextTetromino s' = nextTetromino s"
        by simp_all
      with inv show ?thesis by (simp add: idBounded_def)
    next
      case False
      show ?thesis
      proof (cases "change_x c = None \<or> change_x c = Some 0")
        case True
        with u target False run have "tick s = Inr s'"
          by (simp add: createTetriminoAction_def)
        then show ?thesis by (rule tick_ids [OF inv])
      next
        case no_tick: False
        with u target False run have "s' = s"
          by (simp add: createTetriminoAction_def)
        with inv show ?thesis by simp
      qed
    qed
  qed
qed

lemma reduceState_ids:
  assumes inv: "idBounded s" and run: "reduceState s c = Inr s'"
  shows "idBounded s'"
proof -
  consider (drop) "c = Drop \<and> \<not> gameEnd s"
    | (rotate) "\<not> (c = Drop \<and> \<not> gameEnd s)" "c = Rotate \<and> \<not> gameEnd s"
    | (move) "\<not> (c = Drop \<and> \<not> gameEnd s)" "\<not> (c = Rotate \<and> \<not> gameEnd s)"
        "is_Move c \<and> \<not> gameEnd s"
    | (restart) "\<not> (c = Drop \<and> \<not> gameEnd s)" "\<not> (c = Rotate \<and> \<not> gameEnd s)"
        "\<not> (is_Move c \<and> \<not> gameEnd s)" "c = Space \<and> gameEnd s"
    | (same) "\<not> (c = Drop \<and> \<not> gameEnd s)" "\<not> (c = Rotate \<and> \<not> gameEnd s)"
        "\<not> (is_Move c \<and> \<not> gameEnd s)" "\<not> (c = Space \<and> gameEnd s)" "gameEnd s"
    | (ticked) "\<not> (c = Drop \<and> \<not> gameEnd s)" "\<not> (c = Rotate \<and> \<not> gameEnd s)"
        "\<not> (is_Move c \<and> \<not> gameEnd s)" "\<not> (c = Space \<and> gameEnd s)" "\<not> gameEnd s"
    by blast
  then show ?thesis
  proof cases
    case drop
    with run have "dropTetromino s = Inr s'" by (simp add: reduceState_def)
    then show ?thesis
      unfolding dropTetromino_def by (rule settle_ids [OF inv])
  next
    case rotate
    with run have "createTetriminoAction rotateAction s None = Inr s'"
      by (simp add: reduceState_def rotateTetrimino_def)
    then show ?thesis by (rule action_ids [OF inv])
  next
    case move
    with run have "createTetriminoAction moveAction s (Some c) = Inr s'"
      by (simp add: reduceState_def moveTetrimino_def)
    then show ?thesis by (rule action_ids [OF inv])
  next
    case restart
    with run have "currentTetromino s' = getRandomTetrimono 1
        \<and> nextTetromino s' = getRandomTetrimono 2"
      by (simp add: reduceState_def) (erule subst, simp)
    then show ?thesis by (simp add: idBounded_def getRandomTetrimono_id)
  next
    case same
    with run have "s' = s" by (simp add: reduceState_def)
    with inv show ?thesis by simp
  next
    case ticked
    with run have "tick s = Inr s'" by (simp add: reduceState_def)
    then show ?thesis by (rule tick_ids [OF inv])
  qed
qed

lemma scan_ids:
  assumes "idBounded s" and "scan s cs = Inr s'"
  shows "idBounded s'"
  using assms
proof (induction cs arbitrary: s)
  case Nil
  then show ?case by simp
next
  case (Cons c cs)
  from Cons.prems(2) obtain s1 where step: "reduceState s c = Inr s1" and rest: "scan s1 cs = Inr s'"
    by (auto split: sum.splits)
  from reduceState_ids [OF Cons.prems(1) step] have "idBounded s1" .
  then show ?case using rest by (rule Cons.IH)
qed

lemma reachable_ids:
  assumes "scan initialState cs = Inr s"
  shows "t_id (currentTetromino s) \<le> 2 ^ 53 \<and> t_id (nextTetromino s) \<le> 2 ^ 53
         \<and> round_double (t_id (nextTetromino s) + 1) \<le> 2 ^ 53"
proof -
  have "idBounded initialState"
    by (simp add: idBounded_def initialState_def getRandomTetrimono_id)
  from scan_ids [OF this assms] have ids: "idBounded s" .
  then have "round_double (t_id (nextTetromino s) + 1) \<le> 2 ^ 53"
    unfolding idBounded_def by (intro round_double_succ) simp
  with ids show ?thesis by (simp add: idBounded_def)
qed

section \<open>The placement predicate\<close>

text \<open>
  Claim C3, as the code has it. \<open>isValidPosition\<close> returns false for the shape with no
  rows. For every other shape, a shape whose first row is empty included, it returns true
  exactly when the pixel bounding box is on screen and \<open>shapeAndGridCoincide\<close> returns
  false at the grid coordinates of the position.
\<close>

theorem isValidPosition_iff:
  "(shape = [] \<longrightarrow> isValidPosition px py shape g = Inr False)
   \<and> (shape \<noteq> [] \<longrightarrow>
        (isValidPosition px py shape g = Inr True) =
        (\<not> isOffScreen px py (of_nat (length (hd shape)) * WIDTH) (of_nat (length shape) * HEIGHT)
         \<and> shapeAndGridCoincide shape g (toGridCoordinates px WIDTH) (toGridCoordinates py HEIGHT)
             = Inr False))"
  by (cases shape) (auto simp: isValidPosition_def split: sum.splits)

theorem isValidPosition_iff_witness:
  "isValidPosition 0 0 [] (grid initialState) = Inr False
   \<and> [[Some 1, Some 1], [Some 1, Some 1]] \<noteq> ([] :: TetrominoShape)
   \<and> isValidPosition 0 0 [[Some 1, Some 1], [Some 1, Some 1]] (grid initialState) = Inr True
   \<and> \<not> isOffScreen 0 0 (of_nat (length (hd [[Some 1, Some 1], [Some 1 :: number option, Some 1]])) * WIDTH)
          (of_nat (length [[Some 1, Some 1], [Some 1 :: number option, Some 1]]) * HEIGHT)"
proof -
  have none: "isValidPosition 0 0 [] (grid initialState) = Inr False"
    using isValidPosition_iff [of "[]" 0 0 "grid initialState"] by simp
  have ne: "[[Some 1, Some 1], [Some 1, Some 1]] \<noteq> ([] :: TetrominoShape)" by simp
  have on_screen: "\<not> isOffScreen 0 0
      (of_nat (length (hd [[Some 1, Some 1], [Some 1 :: number option, Some 1]])) * WIDTH)
      (of_nat (length [[Some 1, Some 1], [Some 1 :: number option, Some 1]]) * HEIGHT)"
    by (simp add: isOffScreen_def const_defs)
  have free: "shapeAndGridCoincide [[Some 1, Some 1], [Some 1, Some 1]] (grid initialState)
                (toGridCoordinates 0 WIDTH) (toGridCoordinates 0 HEIGHT) = Inr False"
    by (simp add: grid_initialState util_defs)
  have "isValidPosition 0 0 [[Some 1, Some 1], [Some 1, Some 1]] (grid initialState) = Inr True"
    using isValidPosition_iff [of "[[Some 1, Some 1], [Some 1, Some 1]]" 0 0 "grid initialState"]
      ne on_screen free by blast
  with none ne on_screen show ?thesis by blast
qed

text \<open>
  Claim C3 as stated fails: the shape \<open>[[]]\<close> has an empty first row, and the code accepts
  it at the origin of the empty grid.
\<close>

theorem isValidPosition_empty_first_row_counterexample:
  "isValidPosition 0 0 [[]] (grid initialState) = Inr True"
  by (simp add: grid_initialState util_defs)

section \<open>Game over\<close>

text \<open>
  Claim C4. In a playing state whose current piece sits on a block row, a Tick that finds
  the present position invalid ends the game: the piece is stamped onto the grid where it
  is (a cell becomes the piece's colour with value 1 exactly where the shape has a 1, every
  other cell is kept), both pieces become the null piece with the id of the old current
  piece, \<open>gameEnd\<close> is set and \<open>highScore\<close> is the maximum of the old high score and the
  score.
\<close>

theorem tick_on_invalid_position_ends_game:
  assumes playing: "\<not> gameEnd s"
    and invalid: "isValidPosition (t_x (currentTetromino s)) (t_y (currentTetromino s))
                    (t_shape (currentTetromino s)) (grid s) = Inr False"
    and aligned: "isInteger (t_y (currentTetromino s) / HEIGHT)"
  shows "\<exists>g'. reduceState s Tick =
                 Inr (s\<lparr>grid := g',
                        currentTetromino := nullPiece (t_id (currentTetromino s)),
                        nextTetromino := nullPiece (t_id (currentTetromino s)),
                        gameEnd := True,
                        highScore := max (highScore s) (score s)\<rparr>)
              \<and> length g' = length (grid s)
              \<and> (\<forall>r < length (grid s).
                    length (g' ! r) = length (grid s ! r)
                    \<and> (\<forall>c < length (grid s ! r).
                          g' ! r ! c =
                            (if shape_at (t_shape (currentTetromino s))
                                  (of_nat r - t_y (currentTetromino s) / HEIGHT)
                                  (of_nat c - t_x (currentTetromino s) / WIDTH) = Some 1
                             then \<lparr>g_color = Some (t_color (currentTetromino s)), g_value = Some 1\<rparr>
                             else grid s ! r ! c)))"
proof -
  let ?cur = "currentTetromino s"
  let ?g' = "map_from 0
                (\<lambda>row rowIndex.
                   map_from 0
                     (\<lambda>cell colIndex.
                        if shape_at (t_shape ?cur) (of_nat rowIndex - t_y ?cur / HEIGHT)
                             (of_nat colIndex - t_x ?cur / WIDTH) = Some 1
                        then \<lparr>g_color = Some (t_color ?cur), g_value = Some 1\<rparr> else cell)
                     row)
                (grid s)"
  have stamp: "addTetrominoToGrid (grid s) (t_x ?cur / WIDTH) (t_y ?cur / HEIGHT)
                 (t_shape ?cur) (t_color ?cur) = Inr ?g'"
    by (rule addTetrominoToGrid_aligned [OF aligned])
  have hs: "(if score s > highScore s then score s else highScore s) = max (highScore s) (score s)"
    by (simp add: max_def)
  have "reduceState s Tick = tick s"
    using playing by (simp add: reduceState_def is_Move_def)
  also have "tick s = handleGameEnd s"
    using invalid by (simp add: tick_def)
  also have "handleGameEnd s =
      Inr (s\<lparr>grid := ?g',
             currentTetromino := nullPiece (t_id ?cur),
             nextTetromino := nullPiece (t_id ?cur),
             gameEnd := True,
             highScore := max (highScore s) (score s)\<rparr>)"
    by (simp only: handleGameEnd_def stamp null_entry hs sum.case)
  finally have run: "reduceState s Tick =
      Inr (s\<lparr>grid := ?g',
             currentTetromino := nullPiece (t_id ?cur),
             nextTetromino := nullPiece (t_id ?cur),
             gameEnd := True,
             highScore := max (highScore s) (score s)\<rparr>)" .
  have cells: "length ?g' = length (grid s)
     \<and> (\<forall>r < length (grid s).
           length (?g' ! r) = length (grid s ! r)
           \<and> (\<forall>c < length (grid s ! r).
                 ?g' ! r ! c =
                   (if shape_at (t_shape ?cur) (of_nat r - t_y ?cur / HEIGHT)
                         (of_nat c - t_x ?cur / WIDTH) = Some 1
                    then \<lparr>g_color = Some (t_color ?cur), g_value = Some 1\<rparr>
                    else grid s ! r ! c)))"
    by (simp add: length_map_from nth_map_from)
  from run cells show ?thesis by blast
qed

theorem tick_on_invalid_position_ends_game_witness:
  "\<not> gameEnd blockedState
   \<and> isValidPosition (t_x (currentTetromino blockedState)) (t_y (currentTetromino blockedState))
        (t_shape (currentTetromino blockedState)) (grid blockedState) = Inr False
   \<and> isInteger (t_y (currentTetromino blockedState) / HEIGHT)
   \<and> (\<exists>s'. reduceState blockedState Tick = Inr s' \<and> gameEnd s' \<and> highScore s' = 3
             \<and> currentTetromino s' = nullPiece 1 \<and> nextTetromino s' = nullPiece 1)"
proof -
  have playing: "\<not> gameEnd blockedState"
    by (simp add: blockedState_def initialState_def)
  have invalid: "isValidPosition (t_x (currentTetromino blockedState))
      (t_y (currentTetromino blockedState)) (t_shape (currentTetromino blockedState))
      (grid blockedState) = Inr False"
    by (simp add: blockedState_def initialState_def initial_pieces util_defs)
  have aligned: "isInteger (t_y (currentTetromino blockedState) / HEIGHT)"
    by (simp add: blockedState_def initialState_def initial_pieces isInteger_def const_defs)
  have "t_id (currentTetromino blockedState) = 1"
    and "max (highScore blockedState) (score blockedState) = 3"
    by (simp_all add: blockedState_def initialState_def initial_pieces)
  with tick_on_invalid_position_ends_game [OF playing invalid aligned]
  have "\<exists>s'. reduceState blockedState Tick = Inr s' \<and> gameEnd s' \<and> highScore s' = 3
             \<and> currentTetromino s' = nullPiece 1 \<and> nextTetromino s' = nullPiece 1"
    by auto
  with playing invalid aligned show ?thesis by blast
qed

section \<open>Clearing rows\<close>

text \<open>
  Claim C5. For every grid, \<open>clearedGridAndPoints\<close> returns as many rows as it was given;
  the points are the number of rows for which \<open>isRowFilled\<close> holds; the result is that
  many rows of ten empty cells (value 0) followed by the rows that are not filled, in
  their order.
\<close>

theorem clearedGridAndPoints_rows:
  "length (fst (clearedGridAndPoints g)) = length g
   \<and> snd (clearedGridAndPoints g) = length (filter isRowFilled g)
   \<and> fst (clearedGridAndPoints g) =
       replicate (length (filter isRowFilled g)) (replicate 10 emptyCell)
         @ filter (\<lambda>row. \<not> isRowFilled row) g
   \<and> g_value emptyCell = Some 0"
proof -
  have total: "length (filter isRowFilled g) + length (filter (\<lambda>row. \<not> isRowFilled row) g)
               = length g"
    by (rule sum_length_filter_compl)
  then have pts: "length g - length (filter (\<lambda>row. \<not> isRowFilled row) g)
                  = length (filter isRowFilled g)"
    by arith
  show ?thesis
    using total by (simp add: clearedGridAndPoints_def Let_def pts emptyCell_def)
qed

section \<open>Hard drop\<close>

lemma lowering_fold:
  assumes "reduce_from i
             (\<lambda>accY height _.
                let nextY = accY + height in
                (case isValidPosition px nextY shape g of
                   Inl e \<Rightarrow> Inl e
                 | Inr b \<Rightarrow> Inr (if b then nextY else accY)))
             y0 (replicate m HEIGHT) = Inr yr"
  shows "\<exists>k\<le>m. yr = y0 + of_nat k * HEIGHT
           \<and> (\<forall>j. 1 \<le> j \<and> j \<le> k \<longrightarrow>
                 isValidPosition px (y0 + of_nat j * HEIGHT) shape g = Inr True)
           \<and> (k < m \<longrightarrow> isValidPosition px (yr + HEIGHT) shape g = Inr False)"
  using assms
proof (induction m arbitrary: i y0)
  case 0
  then show ?case by simp
next
  case (Suc m)
  show ?case
  proof (cases "isValidPosition px (y0 + HEIGHT) shape g")
    case (Inl e)
    with Suc.prems show ?thesis by (simp add: Let_def)
  next
    case step: (Inr valid)
    show ?thesis
    proof (cases valid)
      case True
      with step Suc.prems have "reduce_from (i + 1)
             (\<lambda>accY height _.
                let nextY = accY + height in
                (case isValidPosition px nextY shape g of
                   Inl e \<Rightarrow> Inl e
                 | Inr b \<Rightarrow> Inr (if b then nextY else accY)))
             (y0 + HEIGHT) (replicate m HEIGHT) = Inr yr"
        by (simp add: Let_def)
      from Suc.IH [OF this] obtain k where k: "k \<le> m"
        and yr: "yr = y0 + HEIGHT + of_nat k * HEIGHT"
        and steps: "\<forall>j. 1 \<le> j \<and> j \<le> k \<longrightarrow>
                 isValidPosition px (y0 + HEIGHT + of_nat j * HEIGHT) shape g = Inr True"
        and rest: "k < m \<longrightarrow> isValidPosition px (yr + HEIGHT) shape g = Inr False"
        by blast
      have "yr = y0 + of_nat (Suc k) * HEIGHT"
        using yr by (simp add: algebra_simps)
      moreover have "\<forall>j. 1 \<le> j \<and> j \<le> Suc k \<longrightarrow>
                 isValidPosition px (y0 + of_nat j * HEIGHT) shape g = Inr True"
      proof (intro allI impI)
        fix j :: nat
        assume j: "1 \<le> j \<and> j \<le> Suc k"
        show "isValidPosition px (y0 + of_nat j * HEIGHT) shape g = Inr True"
        proof (cases "j = 1")
          case True
          with step \<open>valid\<close> show ?thesis by simp
        next
          case False
          with j obtain j' where j': "j = Suc j'" "1 \<le> j'" "j' \<le> k"
            by (cases j) auto
          have same: "y0 + of_nat j * HEIGHT = y0 + HEIGHT + of_nat j' * HEIGHT"
            by (simp add: j'(1) algebra_simps)
          from steps j'(2,3)
          have "isValidPosition px (y0 + HEIGHT + of_nat j' * HEIGHT) shape g = Inr True"
            by blast
          then show ?thesis by (simp only: same)
        qed
      qed
      moreover have "Suc k \<le> Suc m" using k by simp
      moreover have "Suc k < Suc m \<longrightarrow> isValidPosition px (yr + HEIGHT) shape g = Inr False"
        using rest by simp
      ultimately show ?thesis by blast
    next
      case False
      with step Suc.prems have "reduce_from (i + 1)
             (\<lambda>accY height _.
                let nextY = accY + height in
                (case isValidPosition px nextY shape g of
                   Inl e \<Rightarrow> Inl e
                 | Inr b \<Rightarrow> Inr (if b then nextY else accY)))
             y0 (replicate m HEIGHT) = Inr yr"
        by (simp add: Let_def)
      from Suc.IH [OF this] obtain k where
        yr: "yr = y0 + of_nat k * HEIGHT"
        and steps: "\<forall>j. 1 \<le> j \<and> j \<le> k \<longrightarrow>
                 isValidPosition px (y0 + of_nat j * HEIGHT) shape g = Inr True"
        by blast
      have "k = 0"
      proof (rule ccontr)
        assume "k \<noteq> 0"
        then have "1 \<le> (1::nat) \<and> 1 \<le> k" by simp
        with steps have "isValidPosition px (y0 + of_nat 1 * HEIGHT) shape g = Inr True"
          by blast
        with step False show False by simp
      qed
      with yr have "yr = y0 + of_nat 0 * HEIGHT" by simp
      moreover have "isValidPosition px (yr + HEIGHT) shape g = Inr False"
        using step False yr \<open>k = 0\<close> by simp
      ultimately show ?thesis by (intro exI [of _ 0]) simp
    qed
  qed
qed

lemma below_floor_invalid: "isValidPosition px (400 + HEIGHT) shape g = Inr False"
  by (cases shape) (simp_all add: isValidPosition_def isOffScreen_def const_defs)

lemma findDropPosition_rests:
  assumes "findDropPosition g px py shape = Inr r"
  shows "\<exists>k. r = py / HEIGHT + of_nat k
           \<and> (\<forall>j. 1 \<le> j \<and> j \<le> k \<longrightarrow>
                 isValidPosition px (py + of_nat j * HEIGHT) shape g = Inr True)
           \<and> isValidPosition px (r * HEIGHT + HEIGHT) shape g = Inr False"
proof -
  let ?n = "(400 - py) / HEIGHT"
  let ?m = "nat \<lfloor>?n\<rfloor>"
  let ?fold = "reduce_from 0
             (\<lambda>accY height _.
                let nextY = accY + height in
                (case isValidPosition px nextY shape g of
                   Inl e \<Rightarrow> Inl e
                 | Inr b \<Rightarrow> Inr (if b then nextY else accY)))
             py (replicate ?m HEIGHT)"
  have pos: "HEIGHT \<noteq> 0" by (simp add: const_defs)
  from assms have len: "isInteger ?n \<and> 0 \<le> ?n \<and> ?n < 4294967296"
    by (simp add: findDropPosition_def Let_def split: if_splits)
  with assms obtain yr where run: "?fold = Inr yr" and r: "r = yr / HEIGHT"
    by (auto simp: findDropPosition_def Let_def split: sum.splits)
  from lowering_fold [OF run] obtain k where k: "k \<le> ?m"
    and yr: "yr = py + of_nat k * HEIGHT"
    and steps: "\<forall>j. 1 \<le> j \<and> j \<le> k \<longrightarrow>
                 isValidPosition px (py + of_nat j * HEIGHT) shape g = Inr True"
    and rest: "k < ?m \<longrightarrow> isValidPosition px (yr + HEIGHT) shape g = Inr False"
    by blast
  have pixel: "r * HEIGHT = yr" using r pos by simp
  have row: "r = py / HEIGHT + of_nat k"
    using r yr pos by (simp add: add_divide_distrib)
  have "isValidPosition px (yr + HEIGHT) shape g = Inr False"
  proof (cases "k < ?m")
    case True
    with rest show ?thesis by simp
  next
    case False
    with k have "k = ?m" by simp
    moreover from len have "of_nat ?m = ?n"
      by (simp add: isInteger_def)
    ultimately have "of_nat k * HEIGHT = 400 - py"
      using pos by simp
    with yr have "yr = 400" by simp
    then show ?thesis by (simp add: below_floor_invalid)
  qed
  with row steps pixel show ?thesis by auto
qed

lemma findDropPosition_returns:
  assumes len: "isInteger ((400 - py) / HEIGHT)" "0 \<le> (400 - py) / HEIGHT"
      "(400 - py) / HEIGHT < 4294967296"
    and total: "\<forall>j. 1 \<le> j \<and> j \<le> nat \<lfloor>(400 - py) / HEIGHT\<rfloor> \<longrightarrow>
                  (\<exists>b. isValidPosition px (py + of_nat j * HEIGHT) shape g = Inr b)"
  shows "\<exists>r. findDropPosition g px py shape = Inr r"
proof -
  have fold: "(\<forall>j. 1 \<le> j \<and> j \<le> m \<longrightarrow>
                  (\<exists>b. isValidPosition px (y0 + of_nat j * HEIGHT) shape g = Inr b)) \<Longrightarrow>
           \<exists>yr. reduce_from i
             (\<lambda>accY height _.
                let nextY = accY + height in
                (case isValidPosition px nextY shape g of
                   Inl e \<Rightarrow> Inl e
                 | Inr b \<Rightarrow> Inr (if b then nextY else accY)))
             y0 (replicate m HEIGHT) = Inr yr" for i y0 m
  proof (induction m arbitrary: i y0)
    case 0
    show ?case by simp
  next
    case (Suc m)
    from Suc.prems have "\<exists>b. isValidPosition px (y0 + of_nat 1 * HEIGHT) shape g = Inr b"
      by (intro Suc.prems [rule_format]) simp
    then obtain b where first: "isValidPosition px (y0 + HEIGHT) shape g = Inr b" by auto
    have later: "\<forall>j. 1 \<le> j \<and> j \<le> m \<longrightarrow>
              (\<exists>b. isValidPosition px (y0 + HEIGHT + of_nat j * HEIGHT) shape g = Inr b)"
    proof (intro allI impI)
      fix j :: nat
      assume j: "1 \<le> j \<and> j \<le> m"
      have same: "y0 + of_nat (Suc j) * HEIGHT = y0 + HEIGHT + of_nat j * HEIGHT"
        by (simp add: algebra_simps)
      from j have "\<exists>b. isValidPosition px (y0 + of_nat (Suc j) * HEIGHT) shape g = Inr b"
        by (intro Suc.prems [rule_format]) simp
      then show "\<exists>b. isValidPosition px (y0 + HEIGHT + of_nat j * HEIGHT) shape g = Inr b"
        by (simp only: same)
    qed
    have stay: "\<forall>j. 1 \<le> j \<and> j \<le> m \<longrightarrow>
              (\<exists>b. isValidPosition px (y0 + of_nat j * HEIGHT) shape g = Inr b)"
      using Suc.prems by simp
    show ?case
    proof (cases b)
      case True
      with first Suc.IH [OF later, of "i + 1"] show ?thesis by (simp add: Let_def)
    next
      case False
      with first Suc.IH [OF stay, of "i + 1"] show ?thesis by (simp add: Let_def)
    qed
  qed
  from fold [OF total, of 0] len show ?thesis
    by (auto simp: findDropPosition_def Let_def)
qed

text \<open>
  Claim C6. On the empty grid of the initial state, \<open>findDropPosition\<close> from the origin
  returns row 18 for the cube and row 19 for the line. For every grid, position and shape,
  a row that \<open>findDropPosition\<close> returns is the start row lowered by some number of blocks,
  each of the positions passed on the way (the last one included) is valid, and the
  position one block below the returned row is not valid. It returns a row whenever the
  number of steps is an array length and \<open>isValidPosition\<close> throws at none of the lowered
  positions.
\<close>

theorem findDropPosition_lowest_resting_row:
  "findDropPosition (grid initialState) 0 0 [[Some 1, Some 1], [Some 1, Some 1]] = Inr 18
   \<and> findDropPosition (grid initialState) 0 0 [[Some 1, Some 1, Some 1, Some 1]] = Inr 19
   \<and> (findDropPosition g px py shape = Inr r \<longrightarrow>
        (\<exists>k. r = py / HEIGHT + of_nat k
           \<and> (\<forall>j. 1 \<le> j \<and> j \<le> k \<longrightarrow>
                 isValidPosition px (py + of_nat j * HEIGHT) shape g = Inr True)
           \<and> isValidPosition px (r * HEIGHT + HEIGHT) shape g = Inr False))
   \<and> (isInteger ((400 - py) / HEIGHT) \<and> 0 \<le> (400 - py) / HEIGHT
        \<and> (400 - py) / HEIGHT < 4294967296
        \<and> (\<forall>j. 1 \<le> j \<and> j \<le> nat \<lfloor>(400 - py) / HEIGHT\<rfloor> \<longrightarrow>
              (\<exists>b. isValidPosition px (py + of_nat j * HEIGHT) shape g = Inr b)) \<longrightarrow>
        (\<exists>r. findDropPosition g px py shape = Inr r))"
proof (intro conjI impI)
  show "findDropPosition (grid initialState) 0 0 [[Some 1, Some 1], [Some 1, Some 1]] = Inr 18"
    by (simp add: grid_initialState util_defs)
  show "findDropPosition (grid initialState) 0 0 [[Some 1, Some 1, Some 1, Some 1]] = Inr 19"
    by (simp add: grid_initialState util_defs)
next
  assume "findDropPosition g px py shape = Inr r"
  then show "\<exists>k. r = py / HEIGHT + of_nat k
           \<and> (\<forall>j. 1 \<le> j \<and> j \<le> k \<longrightarrow>
                 isValidPosition px (py + of_nat j * HEIGHT) shape g = Inr True)
           \<and> isValidPosition px (r * HEIGHT + HEIGHT) shape g = Inr False"
    by (rule findDropPosition_rests)
next
  assume "isInteger ((400 - py) / HEIGHT) \<and> 0 \<le> (400 - py) / HEIGHT
        \<and> (400 - py) / HEIGHT < 4294967296
        \<and> (\<forall>j. 1 \<le> j \<and> j \<le> nat \<lfloor>(400 - py) / HEIGHT\<rfloor> \<longrightarrow>
              (\<exists>b. isValidPosition px (py + of_nat j * HEIGHT) shape g = Inr b))"
  then show "\<exists>r. findDropPosition g px py shape = Inr r"
    by (intro findDropPosition_returns) simp_all
qed

theorem findDropPosition_lowest_resting_row_witness:
  "findDropPosition (grid initialState) 0 0 [[Some 1, Some 1], [Some 1, Some 1]] = Inr 18
   \<and> isValidPosition 0 (18 * HEIGHT) [[Some 1, Some 1], [Some 1, Some 1]] (grid initialState)
       = Inr True
   \<and> isValidPosition 0 (18 * HEIGHT + HEIGHT) [[Some 1, Some 1], [Some 1, Some 1]]
       (grid initialState) = Inr False
   \<and> findDropPosition (grid blockedState) 0 0 [[Some 1, Some 1], [Some 1, Some 1]] = Inr 0
   \<and> isValidPosition 0 (0 * HEIGHT + HEIGHT) [[Some 1, Some 1], [Some 1, Some 1]]
       (grid blockedState) = Inr False"
proof -
  let ?cube = "[[Some 1, Some 1], [Some 1, Some 1]] :: TetrominoShape"
  have empty: "findDropPosition (grid initialState) 0 0 ?cube = Inr 18"
    by (simp add: grid_initialState util_defs)
  have full: "findDropPosition (grid blockedState) 0 0 ?cube = Inr 0"
    by (simp add: blockedState_def util_defs)
  from findDropPosition_lowest_resting_row [of "grid initialState" 0 0 ?cube 18] empty
  obtain k where k: "(18::number) = 0 / HEIGHT + of_nat k"
    and steps: "\<forall>j. 1 \<le> j \<and> j \<le> k \<longrightarrow>
                 isValidPosition 0 (0 + of_nat j * HEIGHT) ?cube (grid initialState) = Inr True"
    and rest: "isValidPosition 0 (18 * HEIGHT + HEIGHT) ?cube (grid initialState) = Inr False"
    by blast
  from k have "of_nat k = (of_nat 18 :: number)" by simp
  then have "k = 18" by (simp only: of_nat_eq_iff)
  then have "1 \<le> (18::nat) \<and> 18 \<le> k" by simp
  with steps have "isValidPosition 0 (0 + of_nat 18 * HEIGHT) ?cube (grid initialState) = Inr True"
    by blast
  then have last: "isValidPosition 0 (18 * HEIGHT) ?cube (grid initialState) = Inr True"
    by simp
  from findDropPosition_lowest_resting_row [of "grid blockedState" 0 0 ?cube 0] full
  have blocked: "isValidPosition 0 (0 * HEIGHT + HEIGHT) ?cube (grid blockedState) = Inr False"
    by blast
  from empty last rest full blocked show ?thesis by blast
qed

section \<open>Rotation\<close>

text \<open>
  Claim C7. A shape with at least one row, all rows of one length that is not zero, is
  returned unchanged by four successive calls of \<open>rotateShapeClockwise\<close>.
\<close>

theorem rotateShapeClockwise_four_times:
  assumes "shape \<noteq> []" and "0 < n" and "\<forall>row \<in> set shape. length row = n"
  shows "then_rotate (then_rotate (then_rotate (rotateShapeClockwise shape))) = Inr shape"
proof -
  let ?half = "rev (map rev shape)"
  have half: "then_rotate (rotateShapeClockwise shape) = Inr ?half"
    by (rule rotate_twice [OF assms])
  have ne: "?half \<noteq> []" using assms(1) by simp
  have rect: "\<forall>row \<in> set ?half. length row = n" using assms(3) by auto
  have "then_rotate (rotateShapeClockwise ?half) = Inr (rev (map rev ?half))"
    by (rule rotate_twice [OF ne assms(2) rect])
  also have "rev (map rev ?half) = shape"
    by (simp add: rev_map)
  finally have again: "then_rotate (rotateShapeClockwise ?half) = Inr shape" .
  show ?thesis
    using half again by (simp add: then_rotate_def)
qed

theorem rotateShapeClockwise_four_times_witness:
  "sampleShape \<noteq> [] \<and> (0::nat) < 3 \<and> map length sampleShape = [3, 3]
   \<and> then_rotate (then_rotate (then_rotate (rotateShapeClockwise sampleShape))) = Inr sampleShape
   \<and> rotateShapeClockwise sampleShape = Inr [[Some 4, Some 1], [Some 5, Some 2], [Some 6, Some 3]]"
proof -
  have ne: "sampleShape \<noteq> []" by (simp add: sampleShape_def)
  have pos: "(0::nat) < 3" by simp
  have rect: "\<forall>row \<in> set sampleShape. length row = 3" by (simp add: sampleShape_def)
  have once: "rotateShapeClockwise sampleShape
              = Inr [[Some 4, Some 1], [Some 5, Some 2], [Some 6, Some 3]]"
    by (simp add: sampleShape_def rotateShapeClockwise_def cell_at_of_nat upt_rec)
  have lens: "map length sampleShape = [3, 3]" by (simp add: sampleShape_def)
  from rotateShapeClockwise_four_times [OF ne pos rect] ne pos lens once
  show ?thesis by blast
qed

section \<open>The bomb\<close>

text \<open>
  Claim C9. \<open>addBombToGrid\<close> keeps the dimensions of the grid; a cell whose row index is
  within 1 of \<open>y\<close> and whose column index is within 1 of \<open>x\<close> becomes the bomb's colour
  with value 0, and every other cell is the cell of the input grid.
\<close>

theorem addBombToGrid_cells:
  "length (addBombToGrid g gx gy col) = length g
   \<and> (\<forall>r < length g.
         length (addBombToGrid g gx gy col ! r) = length (g ! r)
         \<and> (\<forall>c < length (g ! r).
               addBombToGrid g gx gy col ! r ! c =
                 (if \<bar>of_nat r - gy\<bar> \<le> 1 \<and> \<bar>of_nat c - gx\<bar> \<le> 1
                  then \<lparr>g_color = Some col, g_value = Some 0\<rparr>
                  else g ! r ! c)))"
  by (simp add: addBombToGrid_def length_map_from nth_map_from)

theorem addBombToGrid_cells_witness:
  "(2::nat) < length smallGrid \<and> 3 < length (smallGrid ! 2)
   \<and> addBombToGrid smallGrid 1 1 black ! 2 ! 2 = \<lparr>g_color = Some black, g_value = Some 0\<rparr>
   \<and> addBombToGrid smallGrid 1 1 black ! 2 ! 3 = filledCell"
proof -
  have r: "(2::nat) < length smallGrid" by (simp add: smallGrid_def)
  have c: "3 < length (smallGrid ! 2)" by (simp add: smallGrid_def)
  have old: "smallGrid ! 2 ! 3 = filledCell" by (simp add: smallGrid_def)
  from addBombToGrid_cells [of smallGrid 1 1 black] r
  have row: "\<forall>c < length (smallGrid ! 2).
               addBombToGrid smallGrid 1 1 black ! 2 ! c =
                 (if \<bar>of_nat 2 - (1::number)\<bar> \<le> 1 \<and> \<bar>of_nat c - (1::number)\<bar> \<le> 1
                  then \<lparr>g_color = Some black, g_value = Some 0\<rparr>
                  else smallGrid ! 2 ! c)"
    by blast
  from row c have "addBombToGrid smallGrid 1 1 black ! 2 ! 2
                   = \<lparr>g_color = Some black, g_value = Some 0\<rparr>"
    by simp
  moreover from row c old have "addBombToGrid smallGrid 1 1 black ! 2 ! 3 = filledCell"
    by simp
  ultimately show ?thesis using r c by blast
qed

section \<open>Restart\<close>

text \<open>
  Claim C10. In an ended state Space resets \<open>gameEnd\<close>, the score, the level, the grid and
  both pieces, and leaves \<open>highScore\<close> and \<open>tickRate\<close> as they were.
\<close>

theorem restart_keeps_highScore_and_tickRate:
  assumes "gameEnd s"
  shows "\<exists>s'. reduceState s Space = Inr s'
           \<and> \<not> gameEnd s' \<and> score s' = 0 \<and> level s' = 0
           \<and> grid s' = replicate 20 (replicate 10 emptyCell)
           \<and> currentTetromino s' = getRandomTetrimono 1
           \<and> nextTetromino s' = getRandomTetrimono 2
           \<and> highScore s' = highScore s \<and> tickRate s' = tickRate s"
  using assms by (simp add: reduceState_def is_Move_def)

theorem restart_keeps_highScore_and_tickRate_witness:
  "gameEnd endedState
   \<and> (\<exists>s'. reduceState endedState Space = Inr s' \<and> \<not> gameEnd s' \<and> score s' = 0 \<and> level s' = 0
           \<and> highScore s' = 7 \<and> tickRate s' = 440)"
proof -
  have h: "gameEnd endedState" by (simp add: endedState_def)
  show ?thesis
    using h restart_keeps_highScore_and_tickRate [OF h] by (auto simp: endedState_def)
qed

section \<open>Rotation against a wall\<close>

lemma rightEdge_reached:
  "scan initialState [Move 20 0, Move 20 0, Move 20 0, Move 20 0] = Inr rightEdgeState"
  by (simp add: rightEdgeState_def initialState_def initial_pieces util_defs state_defs)

lemma rightEdge_playing: "\<not> gameEnd rightEdgeState"
  by (simp add: rightEdgeState_def initialState_def)

lemma rightEdge_rotated:
  "rotateShapeClockwise (t_shape (currentTetromino rightEdgeState)) = Inr rotatedLShape"
  by (simp add: rightEdgeState_def initialState_def initial_pieces rotatedLShape_def
      rotateShapeClockwise_def cell_at_of_nat upt_rec)

lemma rightEdge_invalid:
  "isValidPosition (t_x (currentTetromino rightEdgeState)) (t_y (currentTetromino rightEdgeState))
     rotatedLShape (grid rightEdgeState) = Inr False"
  by (simp add: rightEdgeState_def initialState_def initial_pieces rotatedLShape_def util_defs)

lemma rightEdge_tick:
  "tick rightEdgeState =
     Inr (initialState\<lparr>currentTetromino := (getRandomTetrimono 1)\<lparr>t_x := 160, t_y := 20\<rparr>\<rparr>)"
  by (simp add: rightEdgeState_def initialState_def initial_pieces util_defs tick_def)

text \<open>
  Claim C1, as the code has it. In a playing state a Rotate whose rotated shape is not a
  valid position at the place of the current piece is handled as a Tick: the reducer
  returns what \<open>tick\<close> returns on the state, so the piece moves down one block, settles, or
  the game ends.
\<close>

theorem rotate_invalid_is_tick:
  assumes "\<not> gameEnd s"
    and "rotateShapeClockwise (t_shape (currentTetromino s)) = Inr sh"
    and "isValidPosition (t_x (currentTetromino s)) (t_y (currentTetromino s)) sh (grid s) = Inr False"
  shows "reduceState s Rotate = tick s"
  using assms
  by (simp add: reduceState_def rotateTetrimino_def createTetriminoAction_def rotateAction_def
      change_x_def)

theorem rotate_invalid_is_tick_witness:
  "\<not> gameEnd rightEdgeState
   \<and> rotateShapeClockwise (t_shape (currentTetromino rightEdgeState)) = Inr rotatedLShape
   \<and> isValidPosition (t_x (currentTetromino rightEdgeState)) (t_y (currentTetromino rightEdgeState))
        rotatedLShape (grid rightEdgeState) = Inr False
   \<and> reduceState rightEdgeState Rotate = tick rightEdgeState"
  using rotate_invalid_is_tick [OF rightEdge_playing rightEdge_rotated rightEdge_invalid]
    rightEdge_playing rightEdge_rotated rightEdge_invalid
  by blast

text \<open>
  Claim C1 as stated fails. Four moves to the right bring the first piece to the right
  wall, where its rotation is off screen; the Rotate then moves the piece down from
  \<open>y = 0\<close> to \<open>y = 20\<close>.
\<close>

theorem rotate_invalid_noop_counterexample:
  "scan initialState [Move 20 0, Move 20 0, Move 20 0, Move 20 0] = Inr rightEdgeState
   \<and> \<not> gameEnd rightEdgeState
   \<and> rotateShapeClockwise (t_shape (currentTetromino rightEdgeState)) = Inr rotatedLShape
   \<and> isValidPosition (t_x (currentTetromino rightEdgeState)) (t_y (currentTetromino rightEdgeState))
        rotatedLShape (grid rightEdgeState) = Inr False
   \<and> reduceState rightEdgeState Rotate \<noteq> Inr rightEdgeState
   \<and> t_y (currentTetromino rightEdgeState) = 0
   \<and> map_sum id (t_y \<circ> currentTetromino) (reduceState rightEdgeState Rotate) = Inr 20"
proof -
  have run: "reduceState rightEdgeState Rotate = tick rightEdgeState"
    using rightEdge_playing rightEdge_rotated rightEdge_invalid
    by (simp add: reduceState_def rotateTetrimino_def createTetriminoAction_def rotateAction_def
        change_x_def)
  have y0: "t_y (currentTetromino rightEdgeState) = 0"
    by (simp add: rightEdgeState_def initial_pieces)
  have y1: "map_sum id (t_y \<circ> currentTetromino) (reduceState rightEdgeState Rotate) = Inr 20"
    by (simp add: run rightEdge_tick)
  from y0 y1 have "reduceState rightEdgeState Rotate \<noteq> Inr rightEdgeState"
    by auto
  with rightEdge_reached rightEdge_playing rightEdge_rotated rightEdge_invalid y0 y1
  show ?thesis by blast
qed

section \<open>The level after a restart\<close>

lemma scan_append:
  "scan s (cs @ ds) = (case scan s cs of Inl e \<Rightarrow> Inl e | Inr s' \<Rightarrow> scan s' ds)"
  by (induction cs arbitrary: s) (simp_all split: sum.splits)

lemma toppingOut_ends_game:
  "\<exists>s'. scan initialState toppingOut = Inr s' \<and> gameEnd s' \<and> level s' = 1"
  by (simp add: toppingOut_def initialState_def initial_pieces util_defs gen_defs state_defs)

text \<open>
  Claim C2 fails on the code. Ten drops and a Tick from the initial state end the game
  with level 1; the Space that follows restarts it with level 0, below the range from 1 to
  15.
\<close>

theorem restart_sets_level_zero:
  "map_sum id gameEnd (scan initialState toppingOut) = Inr True
   \<and> map_sum id level (scan initialState toppingOut) = Inr 1
   \<and> map_sum id level (scan initialState (toppingOut @ [Space])) = Inr 0"
proof -
  from toppingOut_ends_game obtain s' where
    run: "scan initialState toppingOut = Inr s'" and ended: "gameEnd s'" and lv: "level s' = 1"
    by blast
  have "map_sum id level (scan initialState (toppingOut @ [Space])) = Inr 0"
    using ended by (simp add: scan_append run reduceState_def is_Move_def)
  with run ended lv show ?thesis by simp
qed

section \<open>The piece generator\<close>

text \<open>
  Claim C8. \<open>getRandomTetrimono\<close> is a function of the id alone: two calls with the same id
  return the same piece. For every id the reducer can pass, that is up to \<open>2 ^ 53\<close>, the
  hash of \<open>12345 + id\<close> reduced modulo 8 is a key of \<open>tetrominoMapping\<close> that names one of
  the eight kinds, and the result is that kind's entry of \<open>tetrominoShapes\<close> (shape, type,
  colour and x) with \<open>y = 0\<close> and the given id. No step of the hash overflows, and up to
  the id 8149933 no step is rounded, so that the index is \<open>(5 * id + 6) mod 8\<close>.
\<close>

theorem getRandomTetrimono_by_id:
  assumes "i \<le> 2 ^ 53"
  shows "(j = i \<longrightarrow> getRandomTetrimono j = getRandomTetrimono i)
         \<and> (\<exists>k t. tetrominoMapping (modulus (hash (round_double (12345 + i)))) = Some k
               \<and> k \<in> set [''cube'', ''line'', ''tee'', ''lShape'', ''reverseLShape'', ''zShape'',
                            ''reverseZShape'', ''Bomb'']
               \<and> tetrominoShapes k = Some t
               \<and> getRandomTetrimono i = t\<lparr>t_id := i\<rparr>
               \<and> t_y (getRandomTetrimono i) = 0
               \<and> t_id (getRandomTetrimono i) = i)
         \<and> RNG_a * round_double (12345 + i) + RNG_c < 2 ^ 1024
         \<and> (i \<le> 8149933 \<longrightarrow>
               modulus (hash (round_double (12345 + i))) = (5 * i + 6) mod 8)"
proof (intro conjI impI)
  assume "j = i"
  then show "getRandomTetrimono j = getRandomTetrimono i" by simp
next
  show "\<exists>k t. tetrominoMapping (modulus (hash (round_double (12345 + i)))) = Some k
               \<and> k \<in> set [''cube'', ''line'', ''tee'', ''lShape'', ''reverseLShape'', ''zShape'',
                            ''reverseZShape'', ''Bomb'']
               \<and> tetrominoShapes k = Some t
               \<and> getRandomTetrimono i = t\<lparr>t_id := i\<rparr>
               \<and> t_y (getRandomTetrimono i) = 0
               \<and> t_id (getRandomTetrimono i) = i"
    by (rule getRandomTetrimono_entry)
next
  show "RNG_a * round_double (12345 + i) + RNG_c < 2 ^ 1024"
    by (rule hash_no_overflow [OF assms])
next
  assume "i \<le> 8149933"
  then show "modulus (hash (round_double (12345 + i))) = (5 * i + 6) mod 8"
    by (rule closed_form)
qed

theorem getRandomTetrimono_by_id_witness:
  "(8149935::nat) \<le> 2 ^ 53
   \<and> tetrominoMapping (modulus (hash (round_double (12345 + 8149935)))) = Some ''cube''
   \<and> t_shape (getRandomTetrimono 8149935) = [[Some 1, Some 1], [Some 1, Some 1]]
   \<and> t_type (getRandomTetrimono 8149935) = ''cube''
   \<and> t_id (getRandomTetrimono 8149935) = 8149935
   \<and> t_y (getRandomTetrimono 8149935) = 0"
proof -
  have small: "(8149935::nat) \<le> 2 ^ 53" by simp
  have kind: "tetrominoMapping (modulus (hash (round_double (12345 + 8149935)))) = Some ''cube''"
    by (simp add: hash_def modulus_def round_double_def excess.simps RNG_a_def RNG_c_def RNG_m_def
        mapping_entries)
  from getRandomTetrimono_by_id [OF small, of 8149935] obtain k t where
    k: "tetrominoMapping (modulus (hash (round_double (12345 + 8149935)))) = Some k"
    and t: "tetrominoShapes k = Some t"
    and eq: "getRandomTetrimono 8149935 = t\<lparr>t_id := 8149935\<rparr>"
    and y: "t_y (getRandomTetrimono 8149935) = 0"
    and i: "t_id (getRandomTetrimono 8149935) = 8149935"
    by blast
  from k kind have "k = ''cube''" by simp
  with t have "t = piece ''cube'' [[Some 1, Some 1], [Some 1, Some 1]] blue (WIDTH * 4)"
    by (simp add: shape_entries)
  with eq have "t_shape (getRandomTetrimono 8149935) = [[Some 1, Some 1], [Some 1, Some 1]]"
    and "t_type (getRandomTetrimono 8149935) = ''cube''"
    by (simp_all add: piece_def)
  with small kind y i show ?thesis by blast
qed

end
